theory Spec2Isabelle
  imports Main "HOL-Library.Multiset"
begin

section \<open>The Taskfile reader (taskfile/reader.go)\<close>

text \<open>
  A shallow embedding of \<^verbatim>\<open>Reader.Read\<close>, \<^verbatim>\<open>Reader.include\<close>,
  \<^verbatim>\<open>Reader.readNode\<close> and \<^verbatim>\<open>Reader.loadNodeContent\<close>.  The Reader's
  effects are explicit: every function takes the state (the graph under construction,
  the remote cache on disk, and a trace of the calls made to the collaborators) and
  returns the new one.  A Go result \<^verbatim>\<open>(v, err)\<close> is a value of \<open>error + 'a\<close>, a Go
  result \<^verbatim>\<open>error\<close> is an \<open>error option\<close> (\<open>None\<close> is \<^verbatim>\<open>nil\<close>).
\<close>

subsection \<open>Data\<close>

type_synonym bytes = string

text \<open>A \<^verbatim>\<open>fmt.Sprintf\<close> message: the format and its arguments.\<close>

type_synonym message = "string \<times> string list"

text \<open>A rendered source snippet: the bytes, the line, the column and the padding.\<close>

type_synonym snippet = "bytes \<times> nat \<times> nat \<times> nat"

datatype error =
    ErrNotExist
  | ErrVertexAlreadyExists
  | ErrEdgeNotFound
  | ErrEdgeCreatesCycle
  | TaskfileCycleError string string
  | TaskfileDecodeError nat nat "(string \<times> snippet) option"
  | TaskfileInvalidError string error
  | TaskfileVersionCheckError string
  | TaskfileCacheNotFoundError string
  | TaskfileNetworkTimeoutError nat string int bool
  | TaskfileNotTrustedError string
  | OtherError string
  | Panic string

text \<open>
  The Reader makes a \<^verbatim>\<open>TaskfileNetworkTimeoutError\<close> and tests for one through pointers
  (\<^verbatim>\<open>&errors.TaskfileNetworkTimeoutError{...}\<close>), so the error carries the address of its
  struct: the arguments are the address, \<^verbatim>\<open>URI\<close>, \<^verbatim>\<open>Timeout\<close> and \<^verbatim>\<open>CheckedCache\<close>.
  \<open>pointers err\<close> are the addresses of the structs of this type that \<open>err\<close> holds: its
  own, or those of the error it was made from.  A new struct is at an address that
  the error in scope does not hold.
\<close>

fun pointers :: "error \<Rightarrow> nat list" where
  "pointers (TaskfileNetworkTimeoutError a uri t c) = [a]"
| "pointers (TaskfileInvalidError uri e) = pointers e"
| "pointers e = []"

definition new_pointer :: "error \<Rightarrow> nat" where
  "new_pointer err = Suc (fold max (pointers err) 0)"

definition taskfileUntrustedPrompt :: string where
  "taskfileUntrustedPrompt =
     ''The task you are attempting to run depends on the remote Taskfile at %q.'' @ [CHR 0x0A] @
     ''--- Make sure you trust the source of this Taskfile before continuing ---'' @ [CHR 0x0A] @
     ''Continue?''"

definition taskfileChangedPrompt :: string where
  "taskfileChangedPrompt =
     ''The Taskfile at %q has changed since you last used it!'' @ [CHR 0x0A] @
     ''--- Make sure you trust the source of this Taskfile before continuing ---'' @ [CHR 0x0A] @
     ''Continue?''"

text \<open>\<^verbatim>\<open>ast.Include\<close>, with the fields the Reader copies.\<close>

record Include =
  Namespace :: string
  Taskfile :: string
  Dir :: string
  Optional :: bool
  Internal :: bool
  Flatten :: bool
  Aliases :: "string list"
  AdvancedImport :: bool
  Excludes :: "string list"
  Vars :: "(string \<times> string) list"

text \<open>
  \<^verbatim>\<open>ast.Task\<close> and \<^verbatim>\<open>ast.Location\<close> (package \<^verbatim>\<open>ast\<close> is missing): the Reader touches
  \<^verbatim>\<open>task.Location.Taskfile\<close> only; \<open>Task_rest\<close> stands for every other field of a task.
  \<^verbatim>\<open>Location\<close> is a pointer (\<open>None\<close> is \<^verbatim>\<open>nil\<close>); no two tasks share a location.
  \<^verbatim>\<open>&ast.Task{}\<close> is the zero value, whose \<^verbatim>\<open>Location\<close> is \<^verbatim>\<open>nil\<close>.
\<close>

record ast_Location =
  Location_Taskfile :: string

record Task =
  Task_Location :: "ast_Location option"
  Task_rest :: string

definition new_Task :: Task where
  "new_Task = \<lparr>Task_Location = None, Task_rest = []\<rparr>"

text \<open>
  \<^verbatim>\<open>ast.Taskfile\<close>.  \<^verbatim>\<open>Version\<close> is a pointer (\<open>None\<close> is \<^verbatim>\<open>nil\<close>).  \<^verbatim>\<open>Tasks\<close> is an
  ordered map from names to \<^verbatim>\<open>*ast.Task\<close>: a pointer is an address in \<open>Task_heap\<close>
  (the index of the object) or \<open>None\<close> for \<^verbatim>\<open>nil\<close>, so that writing through a
  pointer and rebinding a local variable are different things, as in Go.
\<close>

record ast_Taskfile =
  Version :: "string option"
  tf_Location :: string
  tf_Vars :: "(string \<times> string) list"
  Includes :: "Include list"
  Tasks :: "(string \<times> nat option) list"
  Task_heap :: "Task list"

text \<open>
  What the YAML parser finds in a document, before the decoders of package \<^verbatim>\<open>ast\<close>
  make an \<^verbatim>\<open>ast.Taskfile\<close> of it.  The tasks block is a mapping from names to values
  (the names of a mapping are distinct); \<open>None\<close> is an absent or null value; a value
  that is there gives the provenance the task arrives with (empty when it has none)
  and its other fields.
\<close>

record yaml_Task =
  yaml_provenance :: string
  yaml_rest :: string

record yaml_Taskfile =
  yaml_Version :: "string option"
  yaml_Vars :: "(string \<times> string) list"
  yaml_Includes :: "Include list"
  yaml_Tasks :: "(string \<times> yaml_Task option) list"

text \<open>Modelled from the spec: the decoder of a task is missing.  A value of the tasks
  mapping becomes a task record; an absent or null value is normalized to an empty
  record.  Every record has its location allocated, with the provenance that the
  task carries.\<close>

definition decode_Task :: "yaml_Task option \<Rightarrow> Task" where
  "decode_Task v =
     (case v of
        None \<Rightarrow> \<lparr>Task_Location = Some \<lparr>Location_Taskfile = []\<rparr>, Task_rest = []\<rparr>
      | Some t \<Rightarrow> \<lparr>Task_Location = Some \<lparr>Location_Taskfile = yaml_provenance t\<rparr>,
                   Task_rest = yaml_rest t\<rparr>)"

text \<open>Modelled from the spec: the decoder of \<^verbatim>\<open>ast.Taskfile\<close> is missing.  It keeps the
  version, the variables and the includes, and makes the tasks block an ordered map
  from the names to new task objects, one per name, in the order of the document.
  The location of the document is not set yet.\<close>

definition decode_Taskfile :: "yaml_Taskfile \<Rightarrow> ast_Taskfile" where
  "decode_Taskfile y =
     \<lparr>Version = yaml_Version y, tf_Location = [], tf_Vars = yaml_Vars y,
      Includes = yaml_Includes y,
      Tasks = zip (map fst (yaml_Tasks y)) (map Some [0..<length (yaml_Tasks y)]),
      Task_heap = map (\<lambda>(name, v). decode_Task v) (yaml_Tasks y)\<rparr>"

record TaskfileVertex =
  URI :: string
  vertex_Taskfile :: "ast_Taskfile option"

record Edge =
  Source :: string
  Target :: string
  Data :: "Include list"
  Weight :: int

record TaskfileGraph =
  vertices :: "TaskfileVertex list"
  edges :: "Edge list"

text \<open>
  The \<^verbatim>\<open>Node\<close> interface.  \<open>node_Read\<close> is \<^verbatim>\<open>node.Read(ctx)\<close> under a deadline of
  the given duration (a \<^verbatim>\<open>time.Duration\<close>, in nanoseconds).
\<close>

record Node =
  Location :: string
  Remote :: bool
  node_Read :: "int \<Rightarrow> error + bytes"
  ResolveEntrypoint :: "string \<Rightarrow> error + string"
  ResolveDir :: "string \<Rightarrow> error + string"

text \<open>
  The Reader's configuration.  \<open>debugFunc\<close> says whether a debug function is set;
  \<open>promptFunc\<close> is the prompt function, if one is set: it answers \<^verbatim>\<open>nil\<close> (\<open>None\<close>)
  to accept.
\<close>

record Reader =
  node :: Node
  insecure :: bool
  download :: bool
  offline :: bool
  timeout :: int
  tempDir :: string
  debugFunc :: bool
  promptFunc :: "(message \<Rightarrow> error option) option"

text \<open>
  The collaborators whose code is outside the Reader: the process environment, the
  templater, the node constructor, the YAML parser, the checksum and the path and
  snippet helpers.  They are parameters of the model.  So are the methods of the
  error types, whose declarations are missing: \<open>method_Is w err target\<close> says that
  \<open>err\<close>, or an error that it wraps, has a method \<^verbatim>\<open>Is\<close> that accepts \<open>target\<close>.  So is
  the scheduler of the goroutines: \<open>schedule w l\<close> gives the picks that order the
  goroutines of the join of the document at location \<open>l\<close> (see \<open>run_order\<close>).
\<close>

record world =
  GetEnviron :: "(string \<times> string) list"
  templater_Replace :: "(string \<times> string) list \<Rightarrow> string \<Rightarrow> string"
  templater_ReplaceVars :: "(string \<times> string) list \<Rightarrow> (string \<times> string) list \<Rightarrow> (string \<times> string) list"
  templater_Err :: "(string \<times> string) list \<Rightarrow> Include \<Rightarrow> error option"
  NewNode :: "string \<Rightarrow> string \<Rightarrow> bool \<Rightarrow> int \<Rightarrow> Node \<Rightarrow> error + Node"
  yaml_document :: "bytes \<Rightarrow> error + yaml_Taskfile"
  checksum :: "bytes \<Rightarrow> string"
  TryAbsToRel :: "string \<Rightarrow> string"
  os_TempDir :: string
  method_Is :: "error \<Rightarrow> error \<Rightarrow> bool"
  schedule :: "string \<Rightarrow> nat list"

text \<open>
  \<^verbatim>\<open>errors.Is(err, target)\<close> of the standard library, for an \<open>err\<close> that is not \<^verbatim>\<open>nil\<close>:
  \<open>err\<close>, or an error that it wraps, is equal to \<open>target\<close> or has a method \<^verbatim>\<open>Is\<close> that
  accepts \<open>target\<close>.  Two pointers are equal when they are the same address.
\<close>

definition errors_Is :: "world \<Rightarrow> error \<Rightarrow> error \<Rightarrow> bool" where
  "errors_Is w err target =
     ((case target of
         TaskfileNetworkTimeoutError a uri t c \<Rightarrow> a \<in> set (pointers err)
       | _ \<Rightarrow> err = target)
      \<or> method_Is w err target)"

text \<open>
  The calls the Reader makes, in order.  The trace is how a theorem says that
  something was not done (no network read, no prompt) or done once.
\<close>

datatype event =
    EvNodeRead string
  | EvCacheRead string
  | EvChecksum bytes
  | EvReadChecksum string
  | EvPrompt string "string list"
  | EvWriteChecksum string string
  | EvCacheWrite string bytes
  | EvDebug string "string list"
  | EvUnmarshal string
  | EvAddVertex string
  | EvAddEdge string string
  | EvUpdateEdge string string
  | EvEdgeRejected string string

text \<open>
  The state: the graph of the Reader, the cache directory (content and checksum per
  location), the trace, and what the debug and prompt functions have been given.
\<close>

record state =
  graph :: TaskfileGraph
  cache_files :: "string \<Rightarrow> bytes option"
  cache_checksums :: "string \<Rightarrow> string"
  trace :: "event list"
  debug_out :: "message list"
  prompt_out :: "message list"

definition log :: "event \<Rightarrow> state \<Rightarrow> state" where
  "log ev st = st\<lparr>trace := trace st @ [ev]\<rparr>"

subsection \<open>The cache\<close>

text \<open>
  The code of the cache is missing (\<^verbatim>\<open>NewCache\<close>, \<^verbatim>\<open>cache.read\<close>, \<^verbatim>\<open>cache.readChecksum\<close>,
  \<^verbatim>\<open>cache.writeChecksum\<close>, \<^verbatim>\<open>cache.write\<close>); only \<^verbatim>\<open>loadNodeContent\<close>, which calls it, is
  there.  Each operation is modelled from the spec, where the cache is a persistent
  store from a location's identity to the bytes last fetched and to a checksum, with
  independent reads and writes of the two.
\<close>

text \<open>Modelled from the spec: \<^verbatim>\<open>NewCache\<close> is missing.  It gives the cache under the
  temporary directory.\<close>

definition NewCache :: "string \<Rightarrow> error + string" where
  "NewCache dir = Inr dir"

text \<open>Modelled from the spec: \<^verbatim>\<open>cache.read\<close> is missing.  It gives the bytes last
  fetched for the location; an absent entry is \<^verbatim>\<open>os.ErrNotExist\<close>, which is what
  \<^verbatim>\<open>loadNodeContent\<close> tests.\<close>

definition cache_read :: "string \<Rightarrow> Node \<Rightarrow> state \<Rightarrow> (error + bytes) \<times> state" where
  "cache_read cache n st =
     (case cache_files st (Location n) of
        None \<Rightarrow> (Inl ErrNotExist, log (EvCacheRead (Location n)) st)
      | Some b \<Rightarrow> (Inr b, log (EvCacheRead (Location n)) st))"

text \<open>Modelled from the spec: \<^verbatim>\<open>cache.readChecksum\<close> is missing.  It gives the checksum
  recorded for the location; when none is recorded it gives the empty string, which
  is what \<^verbatim>\<open>loadNodeContent\<close> tests.\<close>

definition cache_readChecksum :: "string \<Rightarrow> Node \<Rightarrow> state \<Rightarrow> string \<times> state" where
  "cache_readChecksum cache n st =
     (cache_checksums st (Location n), log (EvReadChecksum (Location n)) st)"

text \<open>Modelled from the spec: \<^verbatim>\<open>cache.writeChecksum\<close> is missing.  It records the
  checksum for the location and leaves the content as it is.\<close>

definition cache_writeChecksum :: "string \<Rightarrow> Node \<Rightarrow> string \<Rightarrow> state \<Rightarrow> error option \<times> state" where
  "cache_writeChecksum cache n c st =
     (None, log (EvWriteChecksum (Location n) c)
              (st\<lparr>cache_checksums := (cache_checksums st)(Location n := c)\<rparr>))"

text \<open>Modelled from the spec: \<^verbatim>\<open>cache.write\<close> is missing.  It stores the content for the
  location and leaves the checksum as it is.\<close>

definition cache_write :: "string \<Rightarrow> Node \<Rightarrow> bytes \<Rightarrow> state \<Rightarrow> error option \<times> state" where
  "cache_write cache n b st =
     (None, log (EvCacheWrite (Location n) b)
              (st\<lparr>cache_files := (cache_files st)(Location n \<mapsto> b)\<rparr>))"

subsection \<open>debugf, promptf\<close>

definition debugf :: "Reader \<Rightarrow> string \<Rightarrow> string list \<Rightarrow> state \<Rightarrow> state" where
  "debugf r format a st =
     (let st1 = log (EvDebug format a) st
      in if debugFunc r then st1\<lparr>debug_out := debug_out st1 @ [(format, a)]\<rparr> else st1)"

definition promptf :: "Reader \<Rightarrow> string \<Rightarrow> string list \<Rightarrow> state \<Rightarrow> error option \<times> state" where
  "promptf r format a st =
     (let st1 = log (EvPrompt format a) st
      in case promptFunc r of
           Some f \<Rightarrow> (f (format, a), st1\<lparr>prompt_out := prompt_out st1 @ [(format, a)]\<rparr>)
         | None \<Rightarrow> (None, st1))"

subsection \<open>loadNodeContent\<close>

text \<open>
  \<^verbatim>\<open>node.Read(ctx)\<close> under the deadline of the Reader, and \<^verbatim>\<open>loadNodeContent\<close>.  The test
  after the read, \<^verbatim>\<open>errors.Is(err, &errors.TaskfileNetworkTimeoutError{})\<close>, has a struct
  allocated in the call as its target; when \<open>err\<close> is \<^verbatim>\<open>nil\<close> it is false and the code goes
  on with the bytes.
\<close>

definition read_node :: "Reader \<Rightarrow> Node \<Rightarrow> state \<Rightarrow> (error + bytes) \<times> state" where
  "read_node r n st = (node_Read n (timeout r), log (EvNodeRead (Location n)) st)"

definition loadNodeContent :: "world \<Rightarrow> Reader \<Rightarrow> Node \<Rightarrow> state \<Rightarrow> (error + bytes) \<times> state" where
  "loadNodeContent w r n st =
     (if \<not> Remote n then read_node r n st
      else case NewCache (tempDir r) of
        Inl err \<Rightarrow> (Inl err, st)
      | Inr cache \<Rightarrow>
          if offline r then
            (case cache_read cache n st of
               (Inl err, st1) \<Rightarrow>
                 if err = ErrNotExist
                 then (Inl (TaskfileCacheNotFoundError (Location n)), st1)
                 else (Inl err, st1)
             | (Inr cached, st1) \<Rightarrow>
                 (Inr cached,
                  debugf r (''task: [%s] Fetched cached copy'' @ [CHR 0x0A]) [Location n] st1))
          else
            (case read_node r n st of
               (Inl err, st1) \<Rightarrow>
                 if errors_Is w err (TaskfileNetworkTimeoutError (new_pointer err) [] 0 False) then
                   if download r
                   then (Inl (TaskfileNetworkTimeoutError (Suc (new_pointer err))
                                (Location n) (timeout r) False), st1)
                   else
                     (case cache_read cache n st1 of
                        (Inl err2, st2) \<Rightarrow>
                          if err2 = ErrNotExist
                          then (Inl (TaskfileNetworkTimeoutError (Suc (new_pointer err))
                                       (Location n) (timeout r) True), st2)
                          else (Inl err2, st2)
                      | (Inr cached, st2) \<Rightarrow>
                          (Inr cached,
                           debugf r (''task: [%s] Network timeout. Fetched cached copy'' @ [CHR 0x0A])
                             [Location n] st2))
                 else (Inl err, st1)
             | (Inr b, st1) \<Rightarrow>
                 (let st2 = debugf r (''task: [%s] Fetched remote copy'' @ [CHR 0x0A]) [Location n] st1;
                      sum = checksum w b;
                      st3 = log (EvChecksum b) st2;
                      (cachedChecksum, st4) = cache_readChecksum cache n st3;
                      prompt = (if cachedChecksum = [] then taskfileUntrustedPrompt
                                else if sum \<noteq> cachedChecksum then taskfileChangedPrompt
                                else [])
                  in if prompt \<noteq> [] then
                       (case promptf r prompt [Location n] st4 of
                          (Some err, st5) \<Rightarrow> (Inl (TaskfileNotTrustedError (Location n)), st5)
                        | (None, st5) \<Rightarrow>
                            (case cache_writeChecksum cache n sum st5 of
                               (Some err, st6) \<Rightarrow> (Inl err, st6)
                             | (None, st6) \<Rightarrow>
                                 (let st7 = debugf r (''task: [%s] Caching downloaded file'' @ [CHR 0x0A])
                                              [Location n] st6
                                  in case cache_write cache n b st7 of
                                       (Some err, st8) \<Rightarrow> (Inl err, st8)
                                     | (None, st8) \<Rightarrow> (Inr b, st8))))
                     else (Inr b, st4))))"

subsection \<open>readNode\<close>

text \<open>\<^verbatim>\<open>yaml.Unmarshal(b, &tf)\<close>: the parser, then the decoders of package \<^verbatim>\<open>ast\<close>.\<close>

definition yaml_Unmarshal :: "world \<Rightarrow> bytes \<Rightarrow> error + ast_Taskfile" where
  "yaml_Unmarshal w b =
     (case yaml_document w b of
        Inl err \<Rightarrow> Inl err
      | Inr y \<Rightarrow> Inr (decode_Taskfile y))"

text \<open>
  The loop over \<^verbatim>\<open>tf.Tasks.Values(nil)\<close>.  The loop variable \<^verbatim>\<open>task\<close> holds a pointer.
  When it is \<^verbatim>\<open>nil\<close> the body binds it to a new object (allocated at the end of the
  heap); nothing stores that pointer in the map.  The body then reads
  \<^verbatim>\<open>task.Location.Taskfile\<close>: when \<^verbatim>\<open>task.Location\<close> is \<^verbatim>\<open>nil\<close>, as it is in a new object, the
  program panics.  The assignment to \<^verbatim>\<open>task.Location.Taskfile\<close> writes through the
  pointers.  A pointer of the map always addresses an object of the heap, as a Go
  pointer does.
\<close>

definition set_task_location :: "string \<Rightarrow> nat option \<Rightarrow> Task list \<Rightarrow> error + Task list" where
  "set_task_location loc p h =
     (let (task, h1) = (case p of None \<Rightarrow> (length h, h @ [new_Task]) | Some a \<Rightarrow> (a, h))
      in case Task_Location (h1 ! task) of
           None \<Rightarrow> Inl (Panic ''invalid memory address or nil pointer dereference'')
         | Some l \<Rightarrow>
             if Location_Taskfile l = []
             then Inr (h1[task := (h1 ! task)\<lparr>Task_Location := Some (l\<lparr>Location_Taskfile := loc\<rparr>)\<rparr>])
             else Inr h1)"

fun set_task_locations :: "string \<Rightarrow> (string \<times> nat option) list \<Rightarrow> Task list \<Rightarrow> error + Task list" where
  "set_task_locations loc [] h = Inr h"
| "set_task_locations loc ((name, p) # ts) h =
     (case set_task_location loc p h of
        Inl err \<Rightarrow> Inl err
      | Inr h1 \<Rightarrow> set_task_locations loc ts h1)"

text \<open>What a name of the tasks map denotes: \<open>None\<close> when the name is absent,
  \<open>Some None\<close> when its pointer is \<^verbatim>\<open>nil\<close>, the task otherwise.\<close>

definition task_of :: "ast_Taskfile \<Rightarrow> string \<Rightarrow> Task option option" where
  "task_of tf name =
     (case map_of (Tasks tf) name of
        None \<Rightarrow> None
      | Some None \<Rightarrow> Some None
      | Some (Some a) \<Rightarrow> Some (Some (Task_heap tf ! a)))"

definition readNode :: "world \<Rightarrow> Reader \<Rightarrow> Node \<Rightarrow> state \<Rightarrow> (error + ast_Taskfile) \<times> state" where
  "readNode w r n st =
     (case loadNodeContent w r n st of
        (Inl err, st1) \<Rightarrow> (Inl err, st1)
      | (Inr b, st1) \<Rightarrow>
          (let st2 = log (EvUnmarshal (Location n)) st1
           in case yaml_Unmarshal w b of
                Inl err \<Rightarrow>
                  (case err of
                     TaskfileDecodeError line column info \<Rightarrow>
                       (Inl (TaskfileDecodeError line column
                               (Some (Location n, (b, line, column, 2)))), st2)
                   | _ \<Rightarrow> (Inl (TaskfileInvalidError (TryAbsToRel w (Location n)) err), st2))
              | Inr tf \<Rightarrow>
                  if Version tf = None
                  then (Inl (TaskfileVersionCheckError (Location n)), st2)
                  else
                    (let tf1 = tf\<lparr>tf_Location := Location n\<rparr>
                     in case set_task_locations (tf_Location tf1) (Tasks tf1) (Task_heap tf1) of
                          Inl err \<Rightarrow> (Inl err, st2)
                        | Inr h \<Rightarrow> (Inr (tf1\<lparr>Task_heap := h\<rparr>), st2))))"

subsection \<open>The graph\<close>

text \<open>
  The code of \<^verbatim>\<open>ast.TaskfileGraph\<close> and of the graph it wraps is missing
  (\<^verbatim>\<open>NewTaskfileGraph\<close>, \<^verbatim>\<open>AddVertex\<close>, \<^verbatim>\<open>Edge\<close>, \<^verbatim>\<open>AddEdge\<close>, \<^verbatim>\<open>UpdateEdge\<close>); only
  \<^verbatim>\<open>include\<close>, which calls it, is there.  Each operation is modelled from the spec.
  Vertices and edges are kept in the order of their insertion.
\<close>

text \<open>Modelled from the spec: \<^verbatim>\<open>ast.NewTaskfileGraph\<close> is missing.  The graph of a new
  Reader has no vertex and no edge.\<close>

definition NewTaskfileGraph :: TaskfileGraph where
  "NewTaskfileGraph = \<lparr>vertices = [], edges = []\<rparr>"

text \<open>Modelled from the spec: \<^verbatim>\<open>AddVertex\<close> is missing.  It inserts the vertex, unless a
  vertex with the same identity exists: then it changes nothing and signals it.\<close>

definition AddVertex :: "TaskfileGraph \<Rightarrow> TaskfileVertex \<Rightarrow> error + TaskfileGraph" where
  "AddVertex g v =
     (if URI v \<in> set (map URI (vertices g)) then Inl ErrVertexAlreadyExists
      else Inr (g\<lparr>vertices := vertices g @ [v]\<rparr>))"

definition is_edge :: "string \<Rightarrow> string \<Rightarrow> Edge \<Rightarrow> bool" where
  "is_edge s t e = (Source e = s \<and> Target e = t)"

text \<open>Modelled from the spec: \<^verbatim>\<open>Edge\<close> is missing.  It looks the edge of an ordered pair
  up and signals when there is none.\<close>

definition graph_Edge :: "TaskfileGraph \<Rightarrow> string \<Rightarrow> string \<Rightarrow> error + Edge" where
  "graph_Edge g s t =
     (case find (is_edge s t) (edges g) of
        None \<Rightarrow> Inl ErrEdgeNotFound
      | Some e \<Rightarrow> Inr e)"

text \<open>The edges as a relation, and the test of the insertion: an edge from \<open>s\<close> to \<open>t\<close>
  would create a path back to an ancestor when \<open>s = t\<close> or \<open>s\<close> can be reached from
  \<open>t\<close>.\<close>

definition edge_rel :: "TaskfileGraph \<Rightarrow> (string \<times> string) set" where
  "edge_rel g = set (map (\<lambda>e. (Source e, Target e)) (edges g))"

definition creates_cycle :: "TaskfileGraph \<Rightarrow> string \<Rightarrow> string \<Rightarrow> bool" where
  "creates_cycle g s t = (s = t \<or> (t, s) \<in> (edge_rel g)\<^sup>+)"

text \<open>Modelled from the spec: \<^verbatim>\<open>AddEdge\<close> is missing.  It creates the edge with the given
  payload and weight; an insertion that would create a path back to an ancestor is
  detected and rejected inside the insertion, with a cycle error.\<close>

definition AddEdge :: "TaskfileGraph \<Rightarrow> string \<Rightarrow> string \<Rightarrow> Include list \<Rightarrow> int \<Rightarrow> error + TaskfileGraph" where
  "AddEdge g s t d wt =
     (if creates_cycle g s t then Inl ErrEdgeCreatesCycle
      else Inr (g\<lparr>edges := edges g @ [\<lparr>Source = s, Target = t, Data = d, Weight = wt\<rparr>]\<rparr>))"

text \<open>Modelled from the spec: \<^verbatim>\<open>UpdateEdge\<close> is missing.  It replaces the payload and the
  weight of the edge of the pair, which must exist.\<close>

definition UpdateEdge :: "TaskfileGraph \<Rightarrow> string \<Rightarrow> string \<Rightarrow> Include list \<Rightarrow> int \<Rightarrow> error + TaskfileGraph" where
  "UpdateEdge g s t d wt =
     (case graph_Edge g s t of
        Inl err \<Rightarrow> Inl err
      | Inr e0 \<Rightarrow>
          Inr (g\<lparr>edges := map (\<lambda>e. if is_edge s t e then e\<lparr>Data := d, Weight := wt\<rparr> else e)
                             (edges g)\<rparr>))"

text \<open>\<^verbatim>\<open>vertex.Taskfile = tf\<close>: the graph holds the pointer to the vertex, so the
  assignment shows in the graph.\<close>

definition set_vertex_Taskfile :: "TaskfileGraph \<Rightarrow> string \<Rightarrow> ast_Taskfile \<Rightarrow> TaskfileGraph" where
  "set_vertex_Taskfile g u tf =
     g\<lparr>vertices := map (\<lambda>v. if URI v = u then v\<lparr>vertex_Taskfile := Some tf\<rparr> else v) (vertices g)\<rparr>"

subsection \<open>include\<close>

text \<open>Modelled from the spec: \<^verbatim>\<open>vars.Merge\<close> (with \<^verbatim>\<open>vars.Set\<close>) is missing.  The process
  environment is overridden by the includer's own variable bindings.\<close>

fun vars_Set :: "string \<Rightarrow> string \<Rightarrow> (string \<times> string) list \<Rightarrow> (string \<times> string) list" where
  "vars_Set k v [] = [(k, v)]"
| "vars_Set k v ((k', v') # vs) = (if k = k' then (k, v) # vs else (k', v') # vars_Set k v vs)"

fun vars_Merge :: "(string \<times> string) list \<Rightarrow> (string \<times> string) list \<Rightarrow> (string \<times> string) list" where
  "vars_Merge vs [] = vs"
| "vars_Merge vs ((k, v) # other) = vars_Merge (vars_Set k v vs) other"

text \<open>The include with its templates replaced (the \<^verbatim>\<open>&ast.Include{...}\<close> of the
  goroutine).\<close>

definition replace_include :: "world \<Rightarrow> (string \<times> string) list \<Rightarrow> Include \<Rightarrow> Include" where
  "replace_include w vars inc =
     \<lparr>Namespace = Namespace inc,
      Taskfile = templater_Replace w vars (Taskfile inc),
      Dir = templater_Replace w vars (Dir inc),
      Optional = Optional inc,
      Internal = Internal inc,
      Flatten = Flatten inc,
      Aliases = Aliases inc,
      AdvancedImport = AdvancedImport inc,
      Excludes = Excludes inc,
      Vars = templater_ReplaceVars w vars (Vars inc)\<rparr>"

text \<open>
  The end of the goroutine: the edge between the two Taskfiles is created, or the
  include is appended to the edge that exists.  A lookup error other than
  \<^verbatim>\<open>ErrEdgeNotFound\<close> leaves a zero edge whose payload is not a list of includes: the
  type assertion panics.
\<close>

definition add_include_edge :: "Node \<Rightarrow> Node \<Rightarrow> Include \<Rightarrow> state \<Rightarrow> error option \<times> state" where
  "add_include_edge n includeNode inc st =
     (let s = Location n; t = Location includeNode
      in case graph_Edge (graph st) s t of
           Inl err0 \<Rightarrow>
             if err0 = ErrEdgeNotFound then
               (case AddEdge (graph st) s t [inc] 1 of
                  Inl err \<Rightarrow>
                    if err = ErrEdgeCreatesCycle
                    then (Some (TaskfileCycleError s t), log (EvEdgeRejected s t) st)
                    else (Some err, st)
                | Inr g \<Rightarrow> (None, log (EvAddEdge s t) (st\<lparr>graph := g\<rparr>)))
             else (Some (Panic ''interface conversion''), st)
         | Inr edge \<Rightarrow>
             (let edgeData = Data edge @ [inc]
              in case UpdateEdge (graph st) s t edgeData (int (length edgeData)) of
                   Inl err \<Rightarrow>
                     if err = ErrEdgeCreatesCycle
                     then (Some (TaskfileCycleError s t), log (EvEdgeRejected s t) st)
                     else (Some err, st)
                 | Inr g \<Rightarrow> (None, log (EvUpdateEdge s t) (st\<lparr>graph := g\<rparr>))))"

text \<open>
  The order in which the goroutines of a join run.  Each pick of the schedule takes
  one of the goroutines that have not run yet (the one at that index, counted
  cyclically); when the picks are used up, the remaining goroutines run in the order
  of their declarations.  Every order is given by some picks.
\<close>

fun run_order :: "nat list \<Rightarrow> 'a list \<Rightarrow> 'a list" where
  "run_order ps [] = []"
| "run_order [] xs = xs"
| "run_order (p # ps) xs =
     (xs ! (p mod length xs))
       # run_order ps (take (p mod length xs) xs @ drop (Suc (p mod length xs)) xs)"

text \<open>
  \<^verbatim>\<open>Reader.include\<close> (here \<open>reader_include\<close>), the loop that starts one goroutine per
  include and waits for all of them, and the goroutine.  The goroutines of a join are
  run one at a time, each to its end, in the order that the schedule gives, which can
  be any order.  \<^verbatim>\<open>g.Wait()\<close> returns the first error that a goroutine returned, which
  is the error of the first goroutine, in the order in which they ran, that failed;
  the other goroutines are not stopped.  The recursion need not end (an include may
  always name a new location), so the first argument bounds its depth: \<open>None\<close> says
  that the bound was reached.
\<close>

function reader_include :: "nat \<Rightarrow> world \<Rightarrow> Reader \<Rightarrow> Node \<Rightarrow> state \<Rightarrow> (error option \<times> state) option"
  and include_loop :: "nat \<Rightarrow> world \<Rightarrow> Reader \<Rightarrow> Node \<Rightarrow> ast_Taskfile \<Rightarrow> Include list \<Rightarrow> state
                        \<Rightarrow> (error option \<times> state) option"
  and include_go :: "nat \<Rightarrow> world \<Rightarrow> Reader \<Rightarrow> Node \<Rightarrow> ast_Taskfile \<Rightarrow> Include \<Rightarrow> state
                        \<Rightarrow> (error option \<times> state) option"
where
  "reader_include 0 w r n st = None"
| "reader_include (Suc k) w r n st =
     (case AddVertex (graph st) \<lparr>URI = Location n, vertex_Taskfile = None\<rparr> of
        Inl err \<Rightarrow> if err = ErrVertexAlreadyExists then Some (None, st) else Some (Some err, st)
      | Inr g \<Rightarrow>
          (case readNode w r n (log (EvAddVertex (Location n)) (st\<lparr>graph := g\<rparr>)) of
             (Inl err, st1) \<Rightarrow> Some (Some err, st1)
           | (Inr tf, st1) \<Rightarrow>
               include_loop k w r n tf (run_order (schedule w (Location n)) (Includes tf))
                 (st1\<lparr>graph := set_vertex_Taskfile (graph st1) (Location n) tf\<rparr>)))"
| "include_loop k w r n tf [] st = Some (None, st)"
| "include_loop k w r n tf (inc # incs) st =
     (case include_go k w r n tf inc st of
        None \<Rightarrow> None
      | Some (err1, st1) \<Rightarrow>
          (case include_loop k w r n tf incs st1 of
             None \<Rightarrow> None
           | Some (err2, st2) \<Rightarrow> Some (case err1 of Some e \<Rightarrow> Some e | None \<Rightarrow> err2, st2)))"
| "include_go k w r n tf inc0 st =
     (let vars = vars_Merge (GetEnviron w) (tf_Vars tf);
          inc1 = replace_include w vars inc0
      in case templater_Err w vars inc0 of
           Some err \<Rightarrow> Some (Some err, st)
         | None \<Rightarrow>
             (case ResolveEntrypoint n (Taskfile inc1) of
                Inl err \<Rightarrow> Some (Some err, st)
              | Inr entrypoint \<Rightarrow>
                  (case ResolveDir n (Dir inc1) of
                     Inl err \<Rightarrow> Some (Some err, st)
                   | Inr dir \<Rightarrow>
                       (let inc = inc1\<lparr>Dir := dir\<rparr>
                        in case NewNode w entrypoint (Dir inc) (insecure r) (timeout r) n of
                             Inl err \<Rightarrow> if Optional inc then Some (None, st) else Some (Some err, st)
                           | Inr includeNode \<Rightarrow>
                               (case reader_include k w r includeNode st of
                                  None \<Rightarrow> None
                                | Some (Some err, st1) \<Rightarrow> Some (Some err, st1)
                                | Some (None, st1) \<Rightarrow>
                                    Some (add_include_edge n includeNode inc st1))))))"
  by pat_completeness auto
termination
  by (relation "inv_image (less_than <*lex*> less_than)
        (\<lambda>x. case x of
               Inl (k, w, r, n, st) \<Rightarrow> (k, 0)
             | Inr (Inl (k, w, r, n, tf, incs, st)) \<Rightarrow> (k, Suc (Suc (length incs)))
             | Inr (Inr (k, w, r, n, tf, inc, st)) \<Rightarrow> (k, Suc 0))") auto

text \<open>
  The goroutines of \<^verbatim>\<open>include\<close> run concurrently.  They change the graph by four
  operations only, each taken as one step: the insertion of a vertex, the assignment
  of the decoded document to the vertex, the edge step (which runs with the graph
  locked), and everything else, which leaves the graph as it is.  \<open>graph_steps st st'\<close>
  says that \<open>st'\<close> is reached from \<open>st\<close> by these steps, in any number, in any order
  and with any arguments: every interleaving of the goroutines is such a sequence.
\<close>

inductive graph_steps :: "state \<Rightarrow> state \<Rightarrow> bool" where
  start: "graph_steps st st"
| vertex: "graph_steps st st1 \<Longrightarrow> AddVertex (graph st1) v = Inr g \<Longrightarrow>
           graph_steps st (st1\<lparr>graph := g\<rparr>)"
| attach: "graph_steps st st1 \<Longrightarrow>
           graph_steps st (st1\<lparr>graph := set_vertex_Taskfile (graph st1) u tf\<rparr>)"
| edge: "graph_steps st st1 \<Longrightarrow> graph_steps st (snd (add_include_edge n m inc st1))"
| other: "graph_steps st st1 \<Longrightarrow> graph st2 = graph st1 \<Longrightarrow> graph_steps st st2"

subsection \<open>Read\<close>

definition NewReader :: "world \<Rightarrow> Node \<Rightarrow> Reader" where
  "NewReader w n =
     \<lparr>node = n, insecure = False, download = False, offline = False,
      timeout = 10 * 1000000000, tempDir = os_TempDir w, debugFunc = False, promptFunc = None\<rparr>"

text \<open>The state of a new Reader: an empty graph, the cache as it is on disk, nothing
  done yet.\<close>

definition new_state :: "(string \<Rightarrow> bytes option) \<Rightarrow> (string \<Rightarrow> string) \<Rightarrow> state" where
  "new_state files sums =
     \<lparr>graph = NewTaskfileGraph, cache_files = files, cache_checksums = sums,
      trace = [], debug_out = [], prompt_out = []\<rparr>"

text \<open>\<^verbatim>\<open>Read\<close> returns the graph or the error; the state it leaves (with
  \<^verbatim>\<open>r.graph\<close>, which no exported method returns) comes third.\<close>

definition Read :: "nat \<Rightarrow> world \<Rightarrow> Reader \<Rightarrow> state
                     \<Rightarrow> (TaskfileGraph option \<times> error option \<times> state) option" where
  "Read k w r st =
     (case reader_include k w r (node r) st of
        None \<Rightarrow> None
      | Some (Some err, st') \<Rightarrow> Some (None, Some err, st')
      | Some (None, st') \<Rightarrow> Some (Some (graph st'), None, st'))"

subsection \<open>Reading the trace\<close>

text \<open>The locations given to \<^verbatim>\<open>node.Read\<close>, the prompts issued, the locations decoded and
  the edge insertions rejected, each in order.\<close>

fun node_reads :: "event list \<Rightarrow> string list" where
  "node_reads [] = []"
| "node_reads (EvNodeRead l # es) = l # node_reads es"
| "node_reads (e # es) = node_reads es"

fun prompts :: "event list \<Rightarrow> message list" where
  "prompts [] = []"
| "prompts (EvPrompt f a # es) = (f, a) # prompts es"
| "prompts (e # es) = prompts es"

fun parses :: "event list \<Rightarrow> string list" where
  "parses [] = []"
| "parses (EvUnmarshal l # es) = l # parses es"
| "parses (e # es) = parses es"

fun rejected :: "event list \<Rightarrow> (string \<times> string) list" where
  "rejected [] = []"
| "rejected (EvEdgeRejected s t # es) = (s, t) # rejected es"
| "rejected (e # es) = rejected es"

text \<open>The steps of the trust gate: computing a checksum, reading the recorded one,
  prompting, and writing the cache.\<close>

fun trust_event :: "event \<Rightarrow> bool" where
  "trust_event (EvChecksum b) = True"
| "trust_event (EvReadChecksum l) = True"
| "trust_event (EvPrompt f a) = True"
| "trust_event (EvWriteChecksum l c) = True"
| "trust_event (EvCacheWrite l b) = True"
| "trust_event e = False"

text \<open>The words of the trust flow: a prompt is needed when no checksum is recorded
  or the recorded one differs; which prompt it is; and whether the Reader's prompt
  function accepts it (without a prompt function every prompt is accepted).\<close>

definition trust_needed :: "world \<Rightarrow> state \<Rightarrow> Node \<Rightarrow> bytes \<Rightarrow> bool" where
  "trust_needed w st n b =
     (cache_checksums st (Location n) = [] \<or> checksum w b \<noteq> cache_checksums st (Location n))"

definition trust_prompt :: "state \<Rightarrow> Node \<Rightarrow> string" where
  "trust_prompt st n =
     (if cache_checksums st (Location n) = [] then taskfileUntrustedPrompt
      else taskfileChangedPrompt)"

definition accepts :: "Reader \<Rightarrow> message \<Rightarrow> bool" where
  "accepts r m = (case promptFunc r of None \<Rightarrow> True | Some f \<Rightarrow> f m = None)"

subsection \<open>Reading the graph and the result of Read\<close>

definition vertex_ids :: "TaskfileGraph \<Rightarrow> string list" where
  "vertex_ids g = map URI (vertices g)"

definition edge_pairs :: "TaskfileGraph \<Rightarrow> (string \<times> string) list" where
  "edge_pairs g = map (\<lambda>e. (Source e, Target e)) (edges g)"

text \<open>The weight of every edge is the length of its payload.\<close>

definition weights_ok :: "TaskfileGraph \<Rightarrow> bool" where
  "weights_ok g = list_all (\<lambda>e. Weight e = int (length (Data e))) (edges g)"

text \<open>The identities of the vertices whose document is attached.\<close>

definition attached :: "TaskfileGraph \<Rightarrow> string list" where
  "attached g = map URI (filter (\<lambda>v. vertex_Taskfile v \<noteq> None) (vertices g))"

text \<open>One vertex per identity; every location is given to \<^verbatim>\<open>node.Read\<close> at most once
  and decoded at most once, and only if it has a vertex; every vertex with a document
  has been decoded.\<close>

definition visited_once :: "state \<Rightarrow> bool" where
  "visited_once st =
     (distinct (vertex_ids (graph st))
      \<and> distinct (node_reads (trace st))
      \<and> set (node_reads (trace st)) \<subseteq> set (vertex_ids (graph st))
      \<and> distinct (parses (trace st))
      \<and> set (parses (trace st)) \<subseteq> set (vertex_ids (graph st))
      \<and> set (attached (graph st)) \<subseteq> set (parses (trace st)))"



text \<open>The parts of what \<^verbatim>\<open>Read\<close> gives: whether it returned, the graph and the error
  it returned, and the graph and the trace of the Reader afterwards.\<close>

definition returned :: "'a option \<Rightarrow> bool" where
  "returned x = (case x of None \<Rightarrow> False | Some y \<Rightarrow> True)"

definition Read_graph :: "(TaskfileGraph option \<times> error option \<times> state) option \<Rightarrow> TaskfileGraph option" where
  "Read_graph x = (case x of None \<Rightarrow> None | Some (g, e, st) \<Rightarrow> g)"

definition Read_error :: "(TaskfileGraph option \<times> error option \<times> state) option \<Rightarrow> error option" where
  "Read_error x = (case x of None \<Rightarrow> None | Some (g, e, st) \<Rightarrow> e)"

definition Reader_graph :: "(TaskfileGraph option \<times> error option \<times> state) option \<Rightarrow> TaskfileGraph" where
  "Reader_graph x = (case x of None \<Rightarrow> NewTaskfileGraph | Some (g, e, st) \<Rightarrow> graph st)"

definition Read_trace :: "(TaskfileGraph option \<times> error option \<times> state) option \<Rightarrow> event list" where
  "Read_trace x = (case x of None \<Rightarrow> [] | Some (g, e, st) \<Rightarrow> trace st)"

subsection \<open>Small inputs\<close>

text \<open>A local node whose content is its own location, a remote node with a given
  answer of the network, an include of a target, a document and the Taskfile with given
  includes, and a world over a table from locations to documents.  A document is the list of its
  includes, or the error that reading it gives.  \<^verbatim>\<open>NewNode\<close> fails for a target that
  is not in the table; the content of a readable document is its location, which the
  decoder looks up in the table.\<close>

definition ex_node :: "string \<Rightarrow> Node" where
  "ex_node loc =
     \<lparr>Location = loc, Remote = False, node_Read = (\<lambda>t. Inr loc),
      ResolveEntrypoint = (\<lambda>e. Inr e), ResolveDir = (\<lambda>d. Inr d)\<rparr>"

definition ex_remote :: "string \<Rightarrow> error + bytes \<Rightarrow> Node" where
  "ex_remote loc answer =
     \<lparr>Location = loc, Remote = True, node_Read = (\<lambda>t. answer),
      ResolveEntrypoint = (\<lambda>e. Inr e), ResolveDir = (\<lambda>d. Inr d)\<rparr>"

definition ex_include :: "string \<Rightarrow> bool \<Rightarrow> Include" where
  "ex_include target opt =
     \<lparr>Namespace = target, Taskfile = target, Dir = [], Optional = opt, Internal = False,
      Flatten = False, Aliases = [], AdvancedImport = False, Excludes = [], Vars = []\<rparr>"

definition ex_document :: "Include list \<Rightarrow> yaml_Taskfile" where
  "ex_document incs =
     \<lparr>yaml_Version = Some ''3'', yaml_Vars = [], yaml_Includes = incs, yaml_Tasks = []\<rparr>"


definition ex_world :: "(string \<times> (error + Include list)) list \<Rightarrow> world" where
  "ex_world fs =
     \<lparr>GetEnviron = [],
      templater_Replace = (\<lambda>vars s. s),
      templater_ReplaceVars = (\<lambda>vars vs. vs),
      templater_Err = (\<lambda>vars inc. None),
      NewNode = (\<lambda>entrypoint dir insec tmo parent.
         case map_of fs entrypoint of
           None \<Rightarrow> Inl ErrNotExist
         | Some (Inl err) \<Rightarrow> Inr ((ex_node entrypoint)\<lparr>node_Read := (\<lambda>t. Inl err)\<rparr>)
         | Some (Inr incs) \<Rightarrow> Inr (ex_node entrypoint)),
      yaml_document = (\<lambda>b. case map_of fs b of
                             Some (Inr incs) \<Rightarrow> Inr (ex_document incs)
                           | _ \<Rightarrow> Inl (OtherError ''yaml'')),
      checksum = (\<lambda>b. ''sum-'' @ b),
      TryAbsToRel = (\<lambda>s. s),
      os_TempDir = ''/tmp'',
      method_Is = (\<lambda>err target. False),
      schedule = (\<lambda>l. [])\<rparr>"

text \<open>The state of a new Reader with an empty cache, and \<^verbatim>\<open>Read\<close> by a new Reader on
  the root of a table in that state.\<close>

definition ex_new :: state where
  "ex_new = new_state (\<lambda>l. None) (\<lambda>l. [])"

definition ex_Read :: "nat \<Rightarrow> (string \<times> (error + Include list)) list \<Rightarrow> string
    \<Rightarrow> (TaskfileGraph option \<times> error option \<times> state) option" where
  "ex_Read k fs root =
     Read k (ex_world fs) (NewReader (ex_world fs) (ex_node root)) ex_new"

text \<open>A state whose cache holds the given contents and checksums.\<close>

definition ex_state :: "(string \<times> bytes) list \<Rightarrow> (string \<times> string) list \<Rightarrow> state" where
  "ex_state files sums =
     new_state (map_of files) (\<lambda>l. case map_of sums l of None \<Rightarrow> [] | Some c \<Rightarrow> c)"

text \<open>A remote location, the node when the fetch gives new bytes and when it times
  out (the error of the node is a \<^verbatim>\<open>TaskfileNetworkTimeoutError\<close>, at address 0), a new
  Reader for a node, and three states of the cache: an older copy with
  its checksum, nothing, and the copy that the fetch gives.\<close>

definition ex_url :: string where
  "ex_url = ''https://h/t.yml''"

definition ex_fetched :: Node where
  "ex_fetched = ex_remote ex_url (Inr ''new'')"

definition ex_timed_out :: Node where
  "ex_timed_out = ex_remote ex_url (Inl (TaskfileNetworkTimeoutError 0 ex_url 5 False))"

text \<open>A method \<^verbatim>\<open>Is\<close> by which a \<^verbatim>\<open>TaskfileNetworkTimeoutError\<close> accepts every target of its
  own type, and the world in which the error type has it.\<close>

fun ex_Is :: "error \<Rightarrow> error \<Rightarrow> bool" where
  "ex_Is (TaskfileNetworkTimeoutError a uri t c) (TaskfileNetworkTimeoutError a' uri' t' c') = True"
| "ex_Is err target = False"

definition ex_world_Is :: world where
  "ex_world_Is = (ex_world [])\<lparr>method_Is := ex_Is\<rparr>"

definition ex_reader :: "Node \<Rightarrow> Reader" where
  "ex_reader n = NewReader (ex_world []) n"

definition ex_cached :: state where
  "ex_cached = ex_state [(ex_url, ''old'')] [(ex_url, ''sum-old'')]"

definition ex_uncached :: state where
  "ex_uncached = ex_state [] []"

definition ex_current :: state where
  "ex_current = ex_state [(ex_url, ''new'')] [(ex_url, ''sum-new'')]"

text \<open>A prompt function that rejects every prompt.\<close>

definition ex_reject :: "message \<Rightarrow> error option" where
  "ex_reject m = Some (OtherError ''rejected'')"




definition ex_diamond :: "(string \<times> (error + Include list)) list" where
  "ex_diamond =
     [(''A'', Inr [ex_include ''B'' False, ex_include ''C'' False]),
      (''B'', Inr [ex_include ''D'' False]),
      (''C'', Inr [ex_include ''D'' False]),
      (''D'', Inr [])]"

definition ex_again :: Include where
  "ex_again = (ex_include ''B'' False)\<lparr>Namespace := ''again''\<rparr>"

definition ex_twice :: "(string \<times> (error + Include list)) list" where
  "ex_twice = [(''A'', Inr [ex_include ''B'' False, ex_again]), (''B'', Inr [])]"




definition ex_late_missing :: "(string \<times> (error + Include list)) list" where
  "ex_late_missing = [(''A'', Inr [ex_include ''B'' False, ex_include ''M'' False]), (''B'', Inr [])]"

definition ex_late_unreadable :: "(string \<times> (error + Include list)) list" where
  "ex_late_unreadable =
     [(''A'', Inr [ex_include ''B'' False, ex_include ''C'' False]),
      (''B'', Inr []),
      (''C'', Inl (OtherError ''unreadable''))]"








text \<open>A state whose graph has the vertex \<open>D\<close>; a state whose graph has the edge from
  \<open>B\<close> to \<open>A\<close>; and a node whose \<^verbatim>\<open>ResolveEntrypoint\<close> fails.\<close>

definition ex_visited :: state where
  "ex_visited =
     ex_new\<lparr>graph := \<lparr>vertices = [\<lparr>URI = ''D'', vertex_Taskfile = None\<rparr>], edges = []\<rparr>\<rparr>"

definition ex_linked :: state where
  "ex_linked =
     ex_new\<lparr>graph := \<lparr>vertices = [\<lparr>URI = ''A'', vertex_Taskfile = None\<rparr>,
                                   \<lparr>URI = ''B'', vertex_Taskfile = None\<rparr>],
                       edges = [\<lparr>Source = ''B'', Target = ''A'',
                                 Data = [ex_include ''A'' False], Weight = 1\<rparr>]\<rparr>\<rparr>"





text \<open>A document with three tasks: \<open>build\<close> has a null value, \<open>test\<close> has no
  provenance yet, \<open>lint\<close> carries one; and a world whose parser finds this document in
  \<^verbatim>\<open>Taskfile.yml\<close>.\<close>

definition ex_tasks :: yaml_Taskfile where
  "ex_tasks =
     (ex_document [])
       \<lparr>yaml_Tasks := [(''build'', None),
                       (''test'', Some \<lparr>yaml_provenance = [], yaml_rest = ''go test''\<rparr>),
                       (''lint'', Some \<lparr>yaml_provenance = ''other.yml'', yaml_rest = ''golint''\<rparr>)]\<rparr>"

definition ex_tasks_world :: world where
  "ex_tasks_world =
     (ex_world [])\<lparr>yaml_document :=
       (\<lambda>b. if b = ''Taskfile.yml'' then Inr ex_tasks else Inl (OtherError ''yaml''))\<rparr>"

text \<open>The Taskfile that \<^verbatim>\<open>readNode\<close> returns for \<^verbatim>\<open>Taskfile.yml\<close> in that world, if any,
  and what a name denotes in its tasks map.\<close>

definition ex_tasks_read :: "ast_Taskfile option" where
  "ex_tasks_read =
     (case fst (readNode ex_tasks_world (NewReader ex_tasks_world (ex_node ''Taskfile.yml''))
                  (ex_node ''Taskfile.yml'') ex_new) of
        Inl err \<Rightarrow> None
      | Inr tf \<Rightarrow> Some tf)"

definition ex_tasks_task :: "string \<Rightarrow> Task option option option" where
  "ex_tasks_task name = (case ex_tasks_read of None \<Rightarrow> None | Some tf \<Rightarrow> Some (task_of tf name))"

section \<open>Properties\<close>

subsection \<open>Auxiliary facts\<close>

lemma node_reads_append: "node_reads (xs @ ys) = node_reads xs @ node_reads ys"
  by (induction xs rule: node_reads.induct) simp_all

lemma prompts_append: "prompts (xs @ ys) = prompts xs @ prompts ys"
  by (induction xs rule: prompts.induct) simp_all

lemma parses_append: "parses (xs @ ys) = parses xs @ parses ys"
  by (induction xs rule: parses.induct) simp_all

lemma rejected_append: "rejected (xs @ ys) = rejected xs @ rejected ys"
  by (induction xs rule: rejected.induct) simp_all

lemma log_simps [simp]:
  "trace (log ev st) = trace st @ [ev]"
  "graph (log ev st) = graph st"
  "cache_files (log ev st) = cache_files st"
  "cache_checksums (log ev st) = cache_checksums st"
  "debug_out (log ev st) = debug_out st"
  "prompt_out (log ev st) = prompt_out st"
  by (simp_all add: log_def)

lemma debugf_simps [simp]:
  "trace (debugf r f a st) = trace st @ [EvDebug f a]"
  "graph (debugf r f a st) = graph st"
  "cache_files (debugf r f a st) = cache_files st"
  "cache_checksums (debugf r f a st) = cache_checksums st"
  "debug_out (debugf r f a st) = debug_out st @ (if debugFunc r then [(f, a)] else [])"
  "prompt_out (debugf r f a st) = prompt_out st"
  by (simp_all add: debugf_def log_def Let_def)

lemma prompt_texts:
  "taskfileUntrustedPrompt \<noteq> []"
  "taskfileChangedPrompt \<noteq> []"
  "taskfileUntrustedPrompt \<noteq> taskfileChangedPrompt"
  by (simp_all add: taskfileUntrustedPrompt_def taskfileChangedPrompt_def)

lemmas load_defs =
  loadNodeContent_def NewCache_def cache_read_def read_node_def cache_readChecksum_def
  cache_writeChecksum_def cache_write_def promptf_def Let_def

lemmas ex_load_defs =
  ex_url_def ex_fetched_def ex_timed_out_def ex_reader_def ex_cached_def ex_uncached_def
  ex_current_def ex_reject_def ex_remote_def ex_state_def new_state_def NewReader_def

subsection \<open>Offline mode\<close>

text \<open>
  Claim C7.  For a remote location requested while the network is disabled
  (\<^verbatim>\<open>r.offline\<close>), \<^verbatim>\<open>loadNodeContent\<close> never calls \<^verbatim>\<open>node.Read\<close>: the trace gains the
  cache lookup and, when the entry exists, the debug message, and nothing else.
  Without a cache entry the result is \<^verbatim>\<open>TaskfileCacheNotFoundError\<close> with the
  location; with one, the result is its bytes and \<^verbatim>\<open>debugf\<close> is called with
  \<^verbatim>\<open>Fetched cached copy\<close> (the message reaches the debug function when one is set).
\<close>

theorem offline_mode:
  assumes "Remote n" and "offline r"
  shows "fst (loadNodeContent w r n st) =
           (case cache_files st (Location n) of
              None \<Rightarrow> Inl (TaskfileCacheNotFoundError (Location n))
            | Some b \<Rightarrow> Inr b)
       \<and> trace (snd (loadNodeContent w r n st)) =
           trace st @ [EvCacheRead (Location n)] @
           (case cache_files st (Location n) of
              None \<Rightarrow> []
            | Some b \<Rightarrow> [EvDebug (''task: [%s] Fetched cached copy'' @ [CHR 0x0A]) [Location n]])
       \<and> node_reads (trace (snd (loadNodeContent w r n st))) = node_reads (trace st)
       \<and> debug_out (snd (loadNodeContent w r n st)) =
           debug_out st @
           (if debugFunc r \<and> cache_files st (Location n) \<noteq> None
            then [(''task: [%s] Fetched cached copy'' @ [CHR 0x0A], [Location n])] else [])"
  using assms
  by (simp add: loadNodeContent_def NewCache_def cache_read_def node_reads_append
        split: option.split)

theorem offline_mode_witness:
  "Remote ex_fetched
   \<and> offline ((ex_reader ex_fetched)\<lparr>offline := True, debugFunc := True\<rparr>)
   \<and> fst (loadNodeContent (ex_world []) ((ex_reader ex_fetched)\<lparr>offline := True, debugFunc := True\<rparr>)
            ex_fetched ex_cached) = Inr ''old''
   \<and> debug_out (snd (loadNodeContent (ex_world [])
            ((ex_reader ex_fetched)\<lparr>offline := True, debugFunc := True\<rparr>) ex_fetched ex_cached))
       = [(''task: [%s] Fetched cached copy'' @ [CHR 0x0A], [ex_url])]
   \<and> node_reads (trace (snd (loadNodeContent (ex_world [])
            ((ex_reader ex_fetched)\<lparr>offline := True, debugFunc := True\<rparr>) ex_fetched ex_cached))) = []
   \<and> fst (loadNodeContent (ex_world []) ((ex_reader ex_fetched)\<lparr>offline := True, debugFunc := True\<rparr>)
            ex_fetched ex_uncached) = Inl (TaskfileCacheNotFoundError ex_url)
   \<and> node_reads (trace (snd (loadNodeContent (ex_world [])
            ((ex_reader ex_fetched)\<lparr>offline := True, debugFunc := True\<rparr>) ex_fetched ex_uncached))) = []"
proof -
  let ?r = "(ex_reader ex_fetched)\<lparr>offline := True, debugFunc := True\<rparr>"
  have h1: "Remote ex_fetched" by (simp add: ex_load_defs)
  have h2: "offline ?r" by simp
  show ?thesis
    using h1 h2
      offline_mode [OF h1 h2, of "ex_world []" ex_cached]
      offline_mode [OF h1 h2, of "ex_world []" ex_uncached]
    by (simp add: ex_load_defs)
qed

subsection \<open>Timeout fallback\<close>

lemma fold_max_le: "a \<le> fold max xs (a::nat)"
proof (induction xs arbitrary: a)
  case (Cons x xs)
  have "a \<le> max x a" by simp
  also have "max x a \<le> fold max xs (max x a)" by (rule Cons.IH)
  finally show ?case by simp
qed simp

lemma fold_max_ge: "x \<in> set xs \<Longrightarrow> x \<le> fold max xs (a::nat)"
proof (induction xs arbitrary: a)
  case (Cons y ys)
  show ?case
  proof (cases "x = y")
    case True
    have "x \<le> max y a" using True by simp
    also have "max y a \<le> fold max ys (max y a)" by (rule fold_max_le)
    finally show ?thesis by simp
  next
    case False
    with Cons.prems have "x \<in> set ys" by simp
    from Cons.IH [OF this] show ?thesis by simp
  qed
qed simp

lemma new_pointer_fresh: "new_pointer err \<notin> set (pointers err)"
proof
  assume "new_pointer err \<in> set (pointers err)"
  from fold_max_ge [OF this, of 0] show False by (simp add: new_pointer_def)
qed

lemma errors_Is_new:
  "errors_Is w err (TaskfileNetworkTimeoutError (new_pointer err) uri t c)
     = method_Is w err (TaskfileNetworkTimeoutError (new_pointer err) uri t c)"
  by (simp add: errors_Is_def new_pointer_fresh)

text \<open>
  Claim C4 fails on the code.  The test for a network timeout,
  \<^verbatim>\<open>errors.Is(err, &errors.TaskfileNetworkTimeoutError{})\<close>, compares the error of the fetch
  with a struct allocated in the call, which no error is: unless the error has a
  method \<^verbatim>\<open>Is\<close> that accepts the target, the test is false, the branch of the timeout
  is not taken, and the error of the fetch is returned as it is, without a look at the
  cache.  (\<^verbatim>\<open>readNode\<close> recognises a \<^verbatim>\<open>TaskfileDecodeError\<close> by \<^verbatim>\<open>errors.As\<close>, which goes by
  the type.)  In the instance the fetch times out, \<^verbatim>\<open>r.download\<close> is unset and the
  cache holds a copy: the claim has the cached bytes returned, the code returns the
  timeout error of the node; without a copy the claim has an error with
  \<^verbatim>\<open>CheckedCache\<close> set, the code returns the error of the node, where it is unset.
\<close>

theorem timeout_not_recognised:
  assumes "Remote n" and "\<not> offline r" and "node_Read n (timeout r) = Inl err"
    and "\<not> method_Is w err (TaskfileNetworkTimeoutError (new_pointer err) [] 0 False)"
  shows "loadNodeContent w r n st = (Inl err, log (EvNodeRead (Location n)) st)"
  using assms
  by (simp add: loadNodeContent_def NewCache_def read_node_def errors_Is_new)

theorem timeout_not_recognised_witness:
  "Remote ex_timed_out
   \<and> \<not> offline (ex_reader ex_timed_out)
   \<and> \<not> download (ex_reader ex_timed_out)
   \<and> node_Read ex_timed_out (timeout (ex_reader ex_timed_out))
       = Inl (TaskfileNetworkTimeoutError 0 ex_url 5 False)
   \<and> \<not> method_Is (ex_world []) (TaskfileNetworkTimeoutError 0 ex_url 5 False)
         (TaskfileNetworkTimeoutError (new_pointer (TaskfileNetworkTimeoutError 0 ex_url 5 False)) [] 0 False)
   \<and> cache_files ex_cached ex_url = Some ''old''
   \<and> fst (loadNodeContent (ex_world []) (ex_reader ex_timed_out) ex_timed_out ex_cached)
       = Inl (TaskfileNetworkTimeoutError 0 ex_url 5 False)
   \<and> trace (snd (loadNodeContent (ex_world []) (ex_reader ex_timed_out) ex_timed_out ex_cached))
       = [EvNodeRead ex_url]
   \<and> cache_files ex_uncached ex_url = None
   \<and> fst (loadNodeContent (ex_world []) (ex_reader ex_timed_out) ex_timed_out ex_uncached)
       = Inl (TaskfileNetworkTimeoutError 0 ex_url 5 False)"
proof -
  let ?e = "TaskfileNetworkTimeoutError 0 ex_url 5 False"
  let ?r = "ex_reader ex_timed_out"
  have h1: "Remote ex_timed_out" by (simp add: ex_load_defs)
  have h2: "\<not> offline ?r" by (simp add: ex_load_defs)
  have h3: "node_Read ex_timed_out (timeout ?r) = Inl ?e" by (simp add: ex_load_defs)
  have h4: "\<not> method_Is (ex_world []) ?e (TaskfileNetworkTimeoutError (new_pointer ?e) [] 0 False)"
    by (simp add: ex_world_def)
  show ?thesis
    using h1 h2 h3 h4
      timeout_not_recognised [OF h1 h2 h3 h4, of ex_cached]
      timeout_not_recognised [OF h1 h2 h3 h4, of ex_uncached]
    by (simp add: ex_load_defs)
qed

subsection \<open>Content served from the cache\<close>

text \<open>
  Claim C10.  When the content of a remote location comes from the cache, in offline
  mode or after a fetch error that the test of \<^verbatim>\<open>loadNodeContent\<close> takes for a network
  timeout, with \<^verbatim>\<open>r.download\<close> unset, the cached bytes are returned and no step of the
  trust gate is taken: no checksum is computed or read, no prompt is issued, and
  neither the cached content nor the checksum is written.  This holds whatever
  methods the error types have.  In the witness the cache serves the content in
  offline mode, and after a timeout in a world where the error type has a method
  \<^verbatim>\<open>Is\<close> that accepts the target of the test.
\<close>

theorem cache_bypasses_trust_gate:
  assumes "Remote n" and "cache_files st (Location n) = Some b"
    and "offline r \<or>
         (node_Read n (timeout r) = Inl err
          \<and> errors_Is w err (TaskfileNetworkTimeoutError (new_pointer err) [] 0 False)
          \<and> \<not> download r)"
  shows "fst (loadNodeContent w r n st) = Inr b
       \<and> filter trust_event (trace (snd (loadNodeContent w r n st))) = filter trust_event (trace st)
       \<and> prompt_out (snd (loadNodeContent w r n st)) = prompt_out st
       \<and> cache_files (snd (loadNodeContent w r n st)) = cache_files st
       \<and> cache_checksums (snd (loadNodeContent w r n st)) = cache_checksums st"
  using assms
  by (auto simp add: loadNodeContent_def NewCache_def cache_read_def read_node_def
        split: option.split)

theorem cache_bypasses_trust_gate_witness:
  "Remote ex_timed_out
   \<and> cache_files ex_cached (Location ex_timed_out) = Some ''old''
   \<and> node_Read ex_timed_out (timeout (ex_reader ex_timed_out))
       = Inl (TaskfileNetworkTimeoutError 0 ex_url 5 False)
   \<and> errors_Is ex_world_Is (TaskfileNetworkTimeoutError 0 ex_url 5 False)
        (TaskfileNetworkTimeoutError (new_pointer (TaskfileNetworkTimeoutError 0 ex_url 5 False)) [] 0 False)
   \<and> \<not> download (ex_reader ex_timed_out)
   \<and> fst (loadNodeContent ex_world_Is (ex_reader ex_timed_out) ex_timed_out ex_cached) = Inr ''old''
   \<and> filter trust_event (trace (snd (loadNodeContent ex_world_Is (ex_reader ex_timed_out)
        ex_timed_out ex_cached))) = []
   \<and> cache_checksums (snd (loadNodeContent ex_world_Is (ex_reader ex_timed_out)
        ex_timed_out ex_cached)) ex_url = ''sum-old''
   \<and> offline ((ex_reader ex_timed_out)\<lparr>offline := True\<rparr>)
   \<and> fst (loadNodeContent (ex_world []) ((ex_reader ex_timed_out)\<lparr>offline := True\<rparr>)
        ex_timed_out ex_cached) = Inr ''old''
   \<and> filter trust_event (trace (snd (loadNodeContent (ex_world [])
        ((ex_reader ex_timed_out)\<lparr>offline := True\<rparr>) ex_timed_out ex_cached))) = []"
proof -
  let ?e = "TaskfileNetworkTimeoutError 0 ex_url 5 False"
  let ?r = "ex_reader ex_timed_out"
  have h1: "Remote ex_timed_out" by (simp add: ex_load_defs)
  have h2: "cache_files ex_cached (Location ex_timed_out) = Some ''old''"
    by (simp add: ex_load_defs)
  have h0: "errors_Is ex_world_Is ?e (TaskfileNetworkTimeoutError (new_pointer ?e) [] 0 False)"
    by (simp add: errors_Is_def ex_world_Is_def)
  have h3: "offline ?r \<or>
            (node_Read ex_timed_out (timeout ?r) = Inl ?e
             \<and> errors_Is ex_world_Is ?e (TaskfileNetworkTimeoutError (new_pointer ?e) [] 0 False)
             \<and> \<not> download ?r)"
    using h0 by (simp add: ex_load_defs)
  have h3': "offline (?r\<lparr>offline := True\<rparr>) \<or>
            (node_Read ex_timed_out (timeout (?r\<lparr>offline := True\<rparr>)) = Inl ?e
             \<and> errors_Is (ex_world []) ?e (TaskfileNetworkTimeoutError (new_pointer ?e) [] 0 False)
             \<and> \<not> download (?r\<lparr>offline := True\<rparr>))"
    by simp
  show ?thesis
    using h1 h2 h0
      cache_bypasses_trust_gate [OF h1 h2 h3]
      cache_bypasses_trust_gate [OF h1 h2 h3']
    by (simp add: ex_load_defs)
qed

subsection \<open>The trust gate\<close>

text \<open>
  Claim C3.  After a successful fetch of a remote location: with no checksum recorded
  for the location, exactly one prompt is issued and it is the untrusted-source
  prompt; with a recorded checksum that differs from the checksum of the fetched
  bytes, exactly one prompt is issued and it is the changed-source prompt; with equal
  checksums no prompt is issued and the cache is not written.  When the prompt is
  rejected the result is \<^verbatim>\<open>TaskfileNotTrustedError\<close> and the cached content and checksum
  are as before; when it is accepted the state returned with the bytes holds the new
  checksum and the new content, written in this order after the prompt.
\<close>

theorem trust_gate:
  assumes "Remote n" and "\<not> offline r" and "node_Read n (timeout r) = Inr b"
  shows "prompts (trace (snd (loadNodeContent w r n st))) =
           prompts (trace st) @
           (if cache_checksums st (Location n) = [] then [(taskfileUntrustedPrompt, [Location n])]
            else if checksum w b \<noteq> cache_checksums st (Location n)
                 then [(taskfileChangedPrompt, [Location n])]
                 else [])
       \<and> taskfileUntrustedPrompt \<noteq> taskfileChangedPrompt
       \<and> fst (loadNodeContent w r n st) =
           (if trust_needed w st n b \<and> \<not> accepts r (trust_prompt st n, [Location n])
            then Inl (TaskfileNotTrustedError (Location n)) else Inr b)
       \<and> cache_files (snd (loadNodeContent w r n st)) =
           (if trust_needed w st n b \<and> accepts r (trust_prompt st n, [Location n])
            then (cache_files st)(Location n \<mapsto> b) else cache_files st)
       \<and> cache_checksums (snd (loadNodeContent w r n st)) =
           (if trust_needed w st n b \<and> accepts r (trust_prompt st n, [Location n])
            then (cache_checksums st)(Location n := checksum w b) else cache_checksums st)
       \<and> trace (snd (loadNodeContent w r n st)) =
           trace st @
           [EvNodeRead (Location n),
            EvDebug (''task: [%s] Fetched remote copy'' @ [CHR 0x0A]) [Location n],
            EvChecksum b, EvReadChecksum (Location n)] @
           (if trust_needed w st n b then
              EvPrompt (trust_prompt st n) [Location n] #
              (if accepts r (trust_prompt st n, [Location n])
               then [EvWriteChecksum (Location n) (checksum w b),
                     EvDebug (''task: [%s] Caching downloaded file'' @ [CHR 0x0A]) [Location n],
                     EvCacheWrite (Location n) b]
               else [])
            else [])"
  using assms
  by (auto simp add: load_defs prompts_append prompt_texts trust_needed_def trust_prompt_def
        accepts_def split: option.split)

theorem trust_gate_witness:
  "Remote ex_fetched
   \<and> \<not> offline (ex_reader ex_fetched)
   \<and> node_Read ex_fetched (timeout (ex_reader ex_fetched)) = Inr ''new''
   \<and> fst (loadNodeContent (ex_world []) (ex_reader ex_fetched) ex_fetched ex_uncached) = Inr ''new''
   \<and> prompts (trace (snd (loadNodeContent (ex_world []) (ex_reader ex_fetched) ex_fetched ex_uncached)))
       = [(taskfileUntrustedPrompt, [ex_url])]
   \<and> cache_files (snd (loadNodeContent (ex_world []) (ex_reader ex_fetched) ex_fetched ex_uncached))
        ex_url = Some ''new''
   \<and> cache_checksums (snd (loadNodeContent (ex_world []) (ex_reader ex_fetched) ex_fetched ex_uncached))
        ex_url = ''sum-new''
   \<and> fst (loadNodeContent (ex_world []) ((ex_reader ex_fetched)\<lparr>promptFunc := Some ex_reject\<rparr>)
        ex_fetched ex_cached) = Inl (TaskfileNotTrustedError ex_url)
   \<and> prompts (trace (snd (loadNodeContent (ex_world [])
        ((ex_reader ex_fetched)\<lparr>promptFunc := Some ex_reject\<rparr>) ex_fetched ex_cached)))
       = [(taskfileChangedPrompt, [ex_url])]
   \<and> cache_files (snd (loadNodeContent (ex_world [])
        ((ex_reader ex_fetched)\<lparr>promptFunc := Some ex_reject\<rparr>) ex_fetched ex_cached)) ex_url
       = Some ''old''
   \<and> cache_checksums (snd (loadNodeContent (ex_world [])
        ((ex_reader ex_fetched)\<lparr>promptFunc := Some ex_reject\<rparr>) ex_fetched ex_cached)) ex_url
       = ''sum-old''
   \<and> fst (loadNodeContent (ex_world []) (ex_reader ex_fetched) ex_fetched ex_current) = Inr ''new''
   \<and> prompts (trace (snd (loadNodeContent (ex_world []) (ex_reader ex_fetched) ex_fetched ex_current)))
       = []
   \<and> trace (snd (loadNodeContent (ex_world []) (ex_reader ex_fetched) ex_fetched ex_current))
       = [EvNodeRead ex_url, EvDebug (''task: [%s] Fetched remote copy'' @ [CHR 0x0A]) [ex_url],
          EvChecksum ''new'', EvReadChecksum ex_url]"
proof -
  let ?r = "ex_reader ex_fetched"
  let ?r' = "?r\<lparr>promptFunc := Some ex_reject\<rparr>"
  have h1: "Remote ex_fetched" by (simp add: ex_load_defs)
  have h2: "\<not> offline ?r" by (simp add: ex_load_defs)
  have h2': "\<not> offline ?r'" by (simp add: ex_load_defs)
  have h3: "node_Read ex_fetched (timeout ?r) = Inr ''new''" by (simp add: ex_load_defs)
  have h3': "node_Read ex_fetched (timeout ?r') = Inr ''new''" by (simp add: ex_load_defs)
  show ?thesis
    using h1 h2 h3
      trust_gate [OF h1 h2 h3, of "ex_world []" ex_uncached]
      trust_gate [OF h1 h2' h3', of "ex_world []" ex_cached]
      trust_gate [OF h1 h2 h3, of "ex_world []" ex_current]
    by (simp add: ex_load_defs ex_world_def trust_needed_def trust_prompt_def accepts_def)
qed

subsection \<open>loadNodeContent and readNode: graph and trace\<close>

lemma loadNodeContent_graph: "graph (snd (loadNodeContent w r n st)) = graph st"
  by (auto simp add: load_defs split: option.split sum.split prod.split)

lemma readNode_graph: "readNode w r n st = (x, st1) \<Longrightarrow> graph st1 = graph st"
  using loadNodeContent_graph [of w r n st]
  by (auto simp add: readNode_def Let_def split: prod.splits sum.splits error.splits if_splits)

lemma loadNodeContent_parses: "parses (trace (snd (loadNodeContent w r n st))) = parses (trace st)"
  by (auto simp add: load_defs parses_append split: option.split sum.split prod.split)

lemma loadNodeContent_rejected: "rejected (trace (snd (loadNodeContent w r n st))) = rejected (trace st)"
  by (auto simp add: load_defs rejected_append split: option.split sum.split prod.split)

lemma loadNodeContent_node_reads:
  "node_reads (trace (snd (loadNodeContent w r n st))) =
     node_reads (trace st) @ (if Remote n \<and> offline r then [] else [Location n])"
  by (auto simp add: load_defs node_reads_append split: option.split sum.split prod.split)

lemma readNode_trace:
  assumes "readNode w r n st = (x, st1)"
  shows "node_reads (trace st1) = node_reads (trace st) @ (if Remote n \<and> offline r then [] else [Location n])"
    and "rejected (trace st1) = rejected (trace st)"
    and "parses (trace st1) = parses (trace st) \<or> parses (trace st1) = parses (trace st) @ [Location n]"
    and "isl x \<or> parses (trace st1) = parses (trace st) @ [Location n]"
  using assms loadNodeContent_node_reads [of w r n st] loadNodeContent_rejected [of w r n st]
    loadNodeContent_parses [of w r n st]
  by (auto simp add: readNode_def Let_def node_reads_append rejected_append parses_append
      split: prod.splits sum.splits error.splits if_splits)


subsection \<open>Graph operations\<close>

lemma AddVertex_Inr:
  "AddVertex g v = Inr g' \<Longrightarrow>
     URI v \<notin> set (vertex_ids g) \<and> vertices g' = vertices g @ [v] \<and> edges g' = edges g"
  by (auto simp: AddVertex_def vertex_ids_def split: if_splits)

lemma AddVertex_Inl:
  "AddVertex g v = Inl err \<Longrightarrow> err = ErrVertexAlreadyExists \<and> URI v \<in> set (vertex_ids g)"
  by (auto simp: AddVertex_def vertex_ids_def split: if_splits)

lemma set_vertex_Taskfile_simps [simp]:
  "edges (set_vertex_Taskfile g u tf) = edges g"
  "vertex_ids (set_vertex_Taskfile g u tf) = vertex_ids g"
  by (simp_all add: set_vertex_Taskfile_def vertex_ids_def comp_def if_distrib cong: if_cong)

lemma attached_set_vertex_Taskfile:
  "set (attached (set_vertex_Taskfile g u tf)) \<subseteq> insert u (set (attached g))"
  by (auto simp: attached_def set_vertex_Taskfile_def)


lemma graph_Edge_Inr:
  "graph_Edge g s t = Inr e \<Longrightarrow> e \<in> set (edges g) \<and> Source e = s \<and> Target e = t"
  by (auto simp: graph_Edge_def is_edge_def find_Some_iff split: option.splits)

lemma graph_Edge_Inl:
  "graph_Edge g s t = Inl err \<Longrightarrow> err = ErrEdgeNotFound \<and> (s, t) \<notin> set (edge_pairs g)"
  by (auto simp: graph_Edge_def is_edge_def edge_pairs_def find_None_iff split: option.splits)

lemma AddEdge_Inr:
  "AddEdge g s t d wt = Inr g' \<Longrightarrow>
     \<not> creates_cycle g s t \<and> vertices g' = vertices g
     \<and> edges g' = edges g @ [\<lparr>Source = s, Target = t, Data = d, Weight = wt\<rparr>]"
  by (auto simp: AddEdge_def split: if_splits)

lemma AddEdge_Inl:
  "AddEdge g s t d wt = Inl err \<Longrightarrow> err = ErrEdgeCreatesCycle \<and> creates_cycle g s t"
  by (auto simp: AddEdge_def split: if_splits)

lemma map_pair_update:
  "map (\<lambda>e. (Source e, Target e))
     (map (\<lambda>e. if is_edge s t e then e\<lparr>Data := d, Weight := wt\<rparr> else e) es)
   = map (\<lambda>e. (Source e, Target e)) es"
  by (induction es) auto

lemma pair_update_comp:
  "(\<lambda>e. (Source e, Target e)) \<circ> (\<lambda>e. if is_edge s t e then e\<lparr>Data := d, Weight := wt\<rparr> else e)
     = (\<lambda>e. (Source e, Target e))"
  by (auto simp: fun_eq_iff)

lemma edge_pairs_update [simp]:
  "edge_pairs (g\<lparr>edges := map (\<lambda>e. if is_edge s t e then e\<lparr>Data := d, Weight := wt\<rparr> else e) (edges g)\<rparr>)
     = edge_pairs g"
  by (simp add: edge_pairs_def pair_update_comp)

lemma edge_pairs_append [simp]:
  "edge_pairs (g\<lparr>edges := edges g @ [e]\<rparr>) = edge_pairs g @ [(Source e, Target e)]"
  by (simp add: edge_pairs_def)

lemma UpdateEdge_Inr:
  "UpdateEdge g s t d wt = Inr g' \<Longrightarrow>
     vertices g' = vertices g
     \<and> edges g' = map (\<lambda>e. if is_edge s t e then e\<lparr>Data := d, Weight := wt\<rparr> else e) (edges g)"
  by (auto simp: UpdateEdge_def split: sum.splits)

lemma UpdateEdge_pairs: "UpdateEdge g s t d wt = Inr g' \<Longrightarrow> edge_pairs g' = edge_pairs g"
  by (auto simp: UpdateEdge_def split: sum.splits)

lemma UpdateEdge_found: "graph_Edge g s t = Inr e \<Longrightarrow> \<exists>g'. UpdateEdge g s t d wt = Inr g'"
  by (simp add: UpdateEdge_def)

lemma acyclic_AddEdge:
  assumes "AddEdge g s t d wt = Inr g'" and "acyclic (edge_rel g)"
  shows "acyclic (edge_rel g')"
proof -
  from assms(1) have "\<not> creates_cycle g s t" and "edge_rel g' = insert (s, t) (edge_rel g)"
    by (auto simp: AddEdge_def edge_rel_def split: if_splits)
  moreover from this(1) have "(t, s) \<notin> (edge_rel g)\<^sup>*"
    by (auto simp: creates_cycle_def rtrancl_eq_or_trancl)
  ultimately show ?thesis using assms(2) by simp
qed

subsection \<open>The edge step\<close>

lemma add_include_edge_cycle:
  assumes "graph_Edge (graph st) (Location n) (Location m) = Inl err"
    and "creates_cycle (graph st) (Location n) (Location m)"
  shows "add_include_edge n m inc st =
           (Some (TaskfileCycleError (Location n) (Location m)),
            log (EvEdgeRejected (Location n) (Location m)) st)"
  using assms graph_Edge_Inl [OF assms(1)]
  by (simp add: add_include_edge_def AddEdge_def Let_def)

lemma add_include_edge_new:
  assumes "graph_Edge (graph st) (Location n) (Location m) = Inl err"
    and "\<not> creates_cycle (graph st) (Location n) (Location m)"
  shows "add_include_edge n m inc st =
           (None, log (EvAddEdge (Location n) (Location m))
                   (st\<lparr>graph := (graph st)\<lparr>edges := edges (graph st) @
                      [\<lparr>Source = Location n, Target = Location m, Data = [inc], Weight = 1\<rparr>]\<rparr>\<rparr>))"
  using assms graph_Edge_Inl [OF assms(1)]
  by (simp add: add_include_edge_def AddEdge_def Let_def)

lemma add_include_edge_update:
  assumes "graph_Edge (graph st) (Location n) (Location m) = Inr e"
  shows "add_include_edge n m inc st =
           (None, log (EvUpdateEdge (Location n) (Location m))
                   (st\<lparr>graph := (graph st)\<lparr>edges :=
                      map (\<lambda>x. if is_edge (Location n) (Location m) x
                               then x\<lparr>Data := Data e @ [inc], Weight := int (length (Data e @ [inc]))\<rparr>
                               else x) (edges (graph st))\<rparr>\<rparr>))"
  using assms
  by (simp add: add_include_edge_def UpdateEdge_def Let_def)

lemma add_include_edge_cases:
  obtains (cycle) err where "graph_Edge (graph st) (Location n) (Location m) = Inl err"
      and "creates_cycle (graph st) (Location n) (Location m)"
  | (new) err where "graph_Edge (graph st) (Location n) (Location m) = Inl err"
      and "\<not> creates_cycle (graph st) (Location n) (Location m)"
  | (update) e where "graph_Edge (graph st) (Location n) (Location m) = Inr e"
  by (cases "graph_Edge (graph st) (Location n) (Location m)") auto

lemma add_include_edge_vertices:
  "vertices (graph (snd (add_include_edge n m inc st))) = vertices (graph st)"
  by (cases rule: add_include_edge_cases [of st n m])
    (simp_all add: add_include_edge_cycle add_include_edge_new add_include_edge_update)


lemma add_include_edge_distinct:
  assumes "distinct (edge_pairs (graph st))"
  shows "distinct (edge_pairs (graph (snd (add_include_edge n m inc st))))"
proof (cases rule: add_include_edge_cases [of st n m])
  case (cycle err)
  then show ?thesis using assms by (simp add: add_include_edge_cycle)
next
  case (new err)
  then show ?thesis using assms graph_Edge_Inl [OF new(1)]
    by (simp add: add_include_edge_new)
next
  case (update e)
  then show ?thesis using assms
    by (simp add: add_include_edge_update)
qed

lemma add_include_edge_weights:
  assumes "weights_ok (graph st)"
  shows "weights_ok (graph (snd (add_include_edge n m inc st)))"
proof (cases rule: add_include_edge_cases [of st n m])
  case (cycle err)
  then show ?thesis using assms by (simp add: add_include_edge_cycle)
next
  case (new err)
  then show ?thesis using assms by (simp add: add_include_edge_new weights_ok_def)
next
  case (update e)
  then show ?thesis using assms
    by (auto simp add: add_include_edge_update weights_ok_def list_all_iff)
qed

lemma add_include_edge_trace:
  "node_reads (trace (snd (add_include_edge n m inc st))) = node_reads (trace st)"
  "parses (trace (snd (add_include_edge n m inc st))) = parses (trace st)"
  by (cases rule: add_include_edge_cases [of st n m];
      simp add: add_include_edge_cycle add_include_edge_new add_include_edge_update
        node_reads_append parses_append)+



subsection \<open>The goroutine, case by case\<close>

lemma include_go_cases:
  assumes "include_go k w r n tf inc0 st = Some (e, st')"
  obtains (early) "st' = st"
  | (child) entrypoint dir m err where
      "templater_Err w (vars_Merge (GetEnviron w) (tf_Vars tf)) inc0 = None"
      "ResolveEntrypoint n (Taskfile (replace_include w (vars_Merge (GetEnviron w) (tf_Vars tf)) inc0))
         = Inr entrypoint"
      "ResolveDir n (Dir (replace_include w (vars_Merge (GetEnviron w) (tf_Vars tf)) inc0)) = Inr dir"
      "NewNode w entrypoint
         (Dir ((replace_include w (vars_Merge (GetEnviron w) (tf_Vars tf)) inc0)\<lparr>Dir := dir\<rparr>))
         (insecure r) (timeout r) n = Inr m"
      "reader_include k w r m st = Some (Some err, st')" "e = Some err"
  | (linked) entrypoint dir m st1 where
      "templater_Err w (vars_Merge (GetEnviron w) (tf_Vars tf)) inc0 = None"
      "ResolveEntrypoint n (Taskfile (replace_include w (vars_Merge (GetEnviron w) (tf_Vars tf)) inc0))
         = Inr entrypoint"
      "ResolveDir n (Dir (replace_include w (vars_Merge (GetEnviron w) (tf_Vars tf)) inc0)) = Inr dir"
      "NewNode w entrypoint
         (Dir ((replace_include w (vars_Merge (GetEnviron w) (tf_Vars tf)) inc0)\<lparr>Dir := dir\<rparr>))
         (insecure r) (timeout r) n = Inr m"
      "reader_include k w r m st = Some (None, st1)"
      "add_include_edge n m
         ((replace_include w (vars_Merge (GetEnviron w) (tf_Vars tf)) inc0)\<lparr>Dir := dir\<rparr>) st1
         = (e, st')"
  using assms
  by (auto simp: Let_def split: option.splits sum.splits if_splits prod.splits)

subsection \<open>Invariants of include\<close>

lemma include_invariant:
  assumes failed: "\<And>w r st n g err st1. P st \<Longrightarrow>
            AddVertex (graph st) \<lparr>URI = Location n, vertex_Taskfile = None\<rparr> = Inr g \<Longrightarrow>
            readNode w r n (log (EvAddVertex (Location n)) (st\<lparr>graph := g\<rparr>)) = (Inl err, st1) \<Longrightarrow>
            P st1"
    and parsed: "\<And>w r st n g tf st1. P st \<Longrightarrow>
            AddVertex (graph st) \<lparr>URI = Location n, vertex_Taskfile = None\<rparr> = Inr g \<Longrightarrow>
            readNode w r n (log (EvAddVertex (Location n)) (st\<lparr>graph := g\<rparr>)) = (Inr tf, st1) \<Longrightarrow>
            P (st1\<lparr>graph := set_vertex_Taskfile (graph st1) (Location n) tf\<rparr>)"
    and edge: "\<And>st n m inc. P st \<Longrightarrow> P (snd (add_include_edge n m inc st))"
  shows "reader_include k w r n st = Some (e, st') \<Longrightarrow> P st \<Longrightarrow> P st'"
    and "include_loop k w r n tf incs st = Some (e, st') \<Longrightarrow> P st \<Longrightarrow> P st'"
    and "include_go k w r n tf inc0 st = Some (e, st') \<Longrightarrow> P st \<Longrightarrow> P st'"
proof (induction k w r n st and k w r n tf incs st and k w r n tf inc0 st
    arbitrary: e st' and e st' and e st'
    rule: reader_include_include_loop_include_go.induct)
  case (1 w r n st)
  then show ?case by simp
next
  case (2 k w r n st)
  show ?case
  proof (cases "AddVertex (graph st) \<lparr>URI = Location n, vertex_Taskfile = None\<rparr>")
    case (Inl err)
    with "2.prems" show ?thesis by (auto split: if_splits)
  next
    case (Inr g)
    note av = this
    obtain x st1 where
      rn: "readNode w r n (log (EvAddVertex (Location n)) (st\<lparr>graph := g\<rparr>)) = (x, st1)"
      by (cases "readNode w r n (log (EvAddVertex (Location n)) (st\<lparr>graph := g\<rparr>))") auto
    show ?thesis
    proof (cases x)
      case (Inl err)
      then have "P st1" using failed [OF "2.prems"(2) av] rn by simp
      with "2.prems" av rn Inl show ?thesis by auto
    next
      case (Inr tf)
      note xr = this
      have P1: "P (st1\<lparr>graph := set_vertex_Taskfile (graph st1) (Location n) tf\<rparr>)"
        using parsed [OF "2.prems"(2) av] rn xr by simp
      have "include_loop k w r n tf (run_order (schedule w (Location n)) (Includes tf))
              (st1\<lparr>graph := set_vertex_Taskfile (graph st1) (Location n) tf\<rparr>) = Some (e, st')"
        using "2.prems"(1) av rn xr by simp
      from "2.IH" [OF av rn [symmetric] xr this P1]
      show ?thesis .
    qed
  qed
next
  case (3 k w r n tf st)
  then show ?case by simp
next
  case (4 k w r n tf inc incs st)
  from "4.prems"(1) obtain err1 st1 err2 where
    go: "include_go k w r n tf inc st = Some (err1, st1)" and
    rest: "include_loop k w r n tf incs st1 = Some (err2, st')"
    by (auto split: option.splits prod.splits)
  have "P st1" using "4.IH"(1) [OF go "4.prems"(2)] .
  then show ?case using "4.IH"(2) [OF go _ rest] by simp
next
  case (5 k w r n tf inc0 st)
  from "5.prems"(1) show ?case
  proof (cases rule: include_go_cases)
    case early
    with "5.prems"(2) show ?thesis by simp
  next
    case (child entrypoint dir m err)
    from "5.IH" [OF refl refl child(1,2,3) refl child(4,5) "5.prems"(2)]
    show ?thesis .
  next
    case (linked entrypoint dir m st1)
    from "5.IH" [OF refl refl linked(1,2,3) refl linked(4,5) "5.prems"(2)]
    have "P st1" .
    from edge [OF this, of n m] linked(6) show ?thesis
      by (metis snd_conv)
  qed
qed



subsection \<open>Instances\<close>

lemma vertex_step:
  assumes "AddVertex (graph st) v = Inr g"
    and "readNode w r n (log ev (st\<lparr>graph := g\<rparr>)) = (x, st1)"
  shows "edges (graph st1) = edges (graph st)"
    and "vertices (graph st1) = vertices (graph st) @ [v]"
    and "URI v \<notin> set (vertex_ids (graph st))"
    and "vertex_ids (graph st1) = vertex_ids (graph st) @ [URI v]"
    and "vertex_Taskfile v = None \<Longrightarrow> attached (graph st1) = attached (graph st)"
  using AddVertex_Inr [OF assms(1)] readNode_graph [OF assms(2)]
  by (simp_all add: vertex_ids_def attached_def)


lemma include_edges_ok:
  assumes "reader_include k w r n st = Some (e, st')"
    and "distinct (edge_pairs (graph st)) \<and> weights_ok (graph st)"
  shows "distinct (edge_pairs (graph st')) \<and> weights_ok (graph st')"
proof (rule include_invariant(1)
    [where P = "\<lambda>s. distinct (edge_pairs (graph s)) \<and> weights_ok (graph s)", OF _ _ _ assms])
  fix w r st n g err st1
  assume "distinct (edge_pairs (graph st)) \<and> weights_ok (graph st)"
    and "AddVertex (graph st) \<lparr>URI = Location n, vertex_Taskfile = None\<rparr> = Inr g"
    and "readNode w r n (log (EvAddVertex (Location n)) (st\<lparr>graph := g\<rparr>)) = (Inl err, st1)"
  then show "distinct (edge_pairs (graph st1)) \<and> weights_ok (graph st1)"
    by (simp add: edge_pairs_def weights_ok_def vertex_step(1))
next
  fix w r st n g tf st1
  assume "distinct (edge_pairs (graph st)) \<and> weights_ok (graph st)"
    and "AddVertex (graph st) \<lparr>URI = Location n, vertex_Taskfile = None\<rparr> = Inr g"
    and "readNode w r n (log (EvAddVertex (Location n)) (st\<lparr>graph := g\<rparr>)) = (Inr tf, st1)"
  then show "distinct (edge_pairs (graph (st1\<lparr>graph := set_vertex_Taskfile (graph st1) (Location n) tf\<rparr>)))
           \<and> weights_ok (graph (st1\<lparr>graph := set_vertex_Taskfile (graph st1) (Location n) tf\<rparr>))"
    by (simp add: edge_pairs_def weights_ok_def vertex_step(1))
next
  fix st :: state and n m inc
  assume "distinct (edge_pairs (graph st)) \<and> weights_ok (graph st)"
  then show "distinct (edge_pairs (graph (snd (add_include_edge n m inc st))))
           \<and> weights_ok (graph (snd (add_include_edge n m inc st)))"
    by (simp add: add_include_edge_distinct add_include_edge_weights)
qed

lemma include_loop_keeps_vertex:
  assumes "include_loop k w r n tf incs st = Some (e, st')" and "l \<in> set (vertex_ids (graph st))"
  shows "l \<in> set (vertex_ids (graph st'))"
proof (rule include_invariant(2) [where P = "\<lambda>s. l \<in> set (vertex_ids (graph s))", OF _ _ _ assms])
  fix w r st n g err st1
  assume "l \<in> set (vertex_ids (graph st))"
    and "AddVertex (graph st) \<lparr>URI = Location n, vertex_Taskfile = None\<rparr> = Inr g"
    and "readNode w r n (log (EvAddVertex (Location n)) (st\<lparr>graph := g\<rparr>)) = (Inl err, st1)"
  then show "l \<in> set (vertex_ids (graph st1))"
    by (simp add: vertex_ids_def vertex_step(2))
next
  fix w r st n g tf st1
  assume "l \<in> set (vertex_ids (graph st))"
    and "AddVertex (graph st) \<lparr>URI = Location n, vertex_Taskfile = None\<rparr> = Inr g"
    and "readNode w r n (log (EvAddVertex (Location n)) (st\<lparr>graph := g\<rparr>)) = (Inr tf, st1)"
  then have "l \<in> set (vertex_ids (graph st1))"
    by (simp add: vertex_ids_def vertex_step(2))
  then show "l \<in> set (vertex_ids (graph (st1\<lparr>graph := set_vertex_Taskfile (graph st1) (Location n) tf\<rparr>)))"
    by simp
next
  fix st :: state and n m inc
  assume "l \<in> set (vertex_ids (graph st))"
  then show "l \<in> set (vertex_ids (graph (snd (add_include_edge n m inc st))))"
    by (simp add: vertex_ids_def add_include_edge_vertices)
qed

lemma include_adds_vertex:
  assumes "reader_include k w r n st = Some (e, st')"
  shows "Location n \<in> set (vertex_ids (graph st'))"
proof (cases k)
  case 0
  with assms show ?thesis by simp
next
  case (Suc j)
  show ?thesis
  proof (cases "AddVertex (graph st) \<lparr>URI = Location n, vertex_Taskfile = None\<rparr>")
    case (Inl err)
    with assms Suc AddVertex_Inl [OF Inl] show ?thesis by (auto split: if_splits)
  next
    case (Inr g)
    note av = this
    obtain x st1 where
      rn: "readNode w r n (log (EvAddVertex (Location n)) (st\<lparr>graph := g\<rparr>)) = (x, st1)"
      by (cases "readNode w r n (log (EvAddVertex (Location n)) (st\<lparr>graph := g\<rparr>))") auto
    have v1: "Location n \<in> set (vertex_ids (graph st1))"
      using vertex_step(2) [OF av rn] by (simp add: vertex_ids_def)
    show ?thesis
    proof (cases x)
      case (Inl err)
      with assms Suc av rn v1 show ?thesis by auto
    next
      case (Inr tf)
      with assms Suc av rn have
        "include_loop j w r n tf (run_order (schedule w (Location n)) (Includes tf))
           (st1\<lparr>graph := set_vertex_Taskfile (graph st1) (Location n) tf\<rparr>) = Some (e, st')"
        by simp
      from include_loop_keeps_vertex [OF this] v1 show ?thesis by simp
    qed
  qed
qed

lemma include_visited_once:
  assumes "reader_include k w r n st = Some (e, st')" and "visited_once st"
  shows "visited_once st'"
proof (rule include_invariant(1) [where P = visited_once, OF _ _ _ assms])
  fix w r st n g err st1
  assume inv: "visited_once st"
    and av: "AddVertex (graph st) \<lparr>URI = Location n, vertex_Taskfile = None\<rparr> = Inr g"
    and rn: "readNode w r n (log (EvAddVertex (Location n)) (st\<lparr>graph := g\<rparr>)) = (Inl err, st1)"
  from vertex_step(3,4,5) [OF av rn] readNode_trace(1,3) [OF rn] inv
  show "visited_once st1"
    by (auto simp: visited_once_def node_reads_append parses_append)
next
  fix w r st n g tf st1
  assume inv: "visited_once st"
    and av: "AddVertex (graph st) \<lparr>URI = Location n, vertex_Taskfile = None\<rparr> = Inr g"
    and rn: "readNode w r n (log (EvAddVertex (Location n)) (st\<lparr>graph := g\<rparr>)) = (Inr tf, st1)"
  from vertex_step(3,4,5) [OF av rn] readNode_trace(1,4) [OF rn] inv
    attached_set_vertex_Taskfile [of "graph st1" "Location n" tf]
  show "visited_once (st1\<lparr>graph := set_vertex_Taskfile (graph st1) (Location n) tf\<rparr>)"
    by (auto simp: visited_once_def node_reads_append parses_append)
next
  fix st :: state and n m inc
  assume "visited_once st"
  then show "visited_once (snd (add_include_edge n m inc st))"
    by (simp add: visited_once_def vertex_ids_def attached_def add_include_edge_vertices
        add_include_edge_trace)
qed

subsection \<open>Further auxiliary facts\<close>


lemma graph_Edge_absent:
  "(s, t) \<notin> set (edge_pairs g) \<Longrightarrow> graph_Edge g s t = Inl ErrEdgeNotFound"
  by (cases "graph_Edge g s t") (auto dest: graph_Edge_Inl graph_Edge_Inr simp: edge_pairs_def)

lemma Read_Some:
  assumes "Read k w r st = Some (g, e, st')"
  shows "reader_include k w r (node r) st = Some (e, st')"
    and "g = (case e of None \<Rightarrow> Some (graph st') | Some err \<Rightarrow> None)"
  using assms by (auto simp: Read_def split: option.splits prod.splits)

lemma returned_Some: "returned x \<Longrightarrow> x = Some (the x)"
  by (cases x) (simp_all add: returned_def)

lemma distinct_count_list:
  "distinct xs \<Longrightarrow> count_list xs x = (if x \<in> set xs then 1 else 0)"
  by (induction xs) auto

lemma include_existing:
  assumes "Location n \<in> set (vertex_ids (graph st))"
  shows "reader_include (Suc k) w r n st = Some (None, st)"
  using assms by (simp add: AddVertex_def vertex_ids_def)


lemma find_is_edge_update:
  "find (is_edge s t) (map (\<lambda>x. if is_edge s t x then x\<lparr>Data := d, Weight := wt\<rparr> else x) es)
     = map_option (\<lambda>x. x\<lparr>Data := d, Weight := wt\<rparr>) (find (is_edge s t) es)"
  by (induction es) (auto simp: is_edge_def)

lemma graph_Edge_after_update:
  assumes "graph_Edge g s t = Inr e"
  shows "graph_Edge (g\<lparr>edges := map (\<lambda>x. if is_edge s t x then x\<lparr>Data := d, Weight := wt\<rparr> else x) (edges g)\<rparr>) s t
           = Inr (e\<lparr>Data := d, Weight := wt\<rparr>)"
  using assms by (auto simp: graph_Edge_def find_is_edge_update split: option.splits)


lemma ex_node_Location: "Location (ex_node l) = l"
  by (simp add: ex_node_def)

lemma ex_new_ok:
  "acyclic (edge_rel (graph ex_new))"
  "distinct (edge_pairs (graph ex_new))"
  "weights_ok (graph ex_new)"
  "visited_once ex_new"
  by (simp_all add: ex_new_def new_state_def NewTaskfileGraph_def edge_rel_def edge_pairs_def
      weights_ok_def visited_once_def vertex_ids_def attached_def acyclic_def)

lemma ex_Read_Some:
  assumes "returned (ex_Read k fs root)"
  obtains g e st' where "Read k (ex_world fs) (NewReader (ex_world fs) (ex_node root)) ex_new = Some (g, e, st')"
    and "Read_graph (ex_Read k fs root) = g" and "Read_error (ex_Read k fs root) = e"
    and "Reader_graph (ex_Read k fs root) = graph st'" and "Read_trace (ex_Read k fs root) = trace st'"
proof -
  from returned_Some [OF assms] obtain g e st' where "ex_Read k fs root = Some (g, e, st')"
    by (metis prod_cases3)
  then show ?thesis
    using that [of g e st']
    by (simp add: ex_Read_def ex_new_def Read_graph_def Read_error_def Reader_graph_def Read_trace_def)
qed

subsection \<open>Any interleaving of the graph operations\<close>


lemma graph_steps_edges_ok:
  assumes "graph_steps st st'" and "distinct (edge_pairs (graph st))" and "weights_ok (graph st)"
  shows "distinct (edge_pairs (graph st')) \<and> weights_ok (graph st')"
  using assms
proof (induction rule: graph_steps.induct)
  case (vertex st st1 v g)
  then show ?case by (simp add: edge_pairs_def weights_ok_def AddVertex_Inr)
next
  case (edge st st1 n m inc)
  then show ?case by (simp add: add_include_edge_distinct add_include_edge_weights)
qed (simp_all add: edge_pairs_def weights_ok_def)

lemma graph_steps_vertices:
  assumes "graph_steps st st'" and "distinct (vertex_ids (graph st))"
  shows "distinct (vertex_ids (graph st'))"
  using assms
proof (induction rule: graph_steps.induct)
  case (vertex st st1 v g)
  then show ?case using AddVertex_Inr [of "graph st1" v g] by (simp add: vertex_ids_def)
next
  case (edge st st1 n m inc)
  then show ?case by (simp add: vertex_ids_def add_include_edge_vertices)
qed simp_all



lemma ex_linked_steps: "graph_steps ex_new ex_linked"
proof -
  let ?a = "\<lparr>URI = ''A'', vertex_Taskfile = None\<rparr>"
  let ?b = "\<lparr>URI = ''B'', vertex_Taskfile = None\<rparr>"
  let ?st = "ex_new\<lparr>graph := \<lparr>vertices = [?a, ?b], edges = []\<rparr>\<rparr>"
  have "AddVertex (graph ex_new) ?a = Inr \<lparr>vertices = [?a], edges = []\<rparr>"
    by (simp add: AddVertex_def ex_new_def new_state_def NewTaskfileGraph_def)
  from graph_steps.vertex [OF graph_steps.start this]
  have a: "graph_steps ex_new (ex_new\<lparr>graph := \<lparr>vertices = [?a], edges = []\<rparr>\<rparr>)" .
  have "AddVertex (graph (ex_new\<lparr>graph := \<lparr>vertices = [?a], edges = []\<rparr>\<rparr>)) ?b
          = Inr \<lparr>vertices = [?a, ?b], edges = []\<rparr>"
    by (simp add: AddVertex_def)
  from graph_steps.vertex [OF a this] have b: "graph_steps ex_new ?st" by simp
  have "graph ex_linked
          = graph (snd (add_include_edge (ex_node ''B'') (ex_node ''A'') (ex_include ''A'' False) ?st))"
    by (simp add: add_include_edge_def graph_Edge_def AddEdge_def creates_cycle_def edge_rel_def
        ex_node_def ex_linked_def log_def Let_def)
  from graph_steps.other [OF graph_steps.edge [OF b] this] show ?thesis .
qed

subsection \<open>The bound on the depth\<close>

text \<open>The bound only cuts the recursion: what \<^verbatim>\<open>include\<close> returns within a bound, it
  returns within every larger one.\<close>

lemma include_fuel:
  shows "reader_include k w r n st = Some x \<Longrightarrow> reader_include (Suc k) w r n st = Some x"
    and "include_loop k w r n tf incs st = Some x \<Longrightarrow> include_loop (Suc k) w r n tf incs st = Some x"
    and "include_go k w r n tf inc0 st = Some x \<Longrightarrow> include_go (Suc k) w r n tf inc0 st = Some x"
proof (induction k w r n st and k w r n tf incs st and k w r n tf inc0 st
    arbitrary: x and x and x
    rule: reader_include_include_loop_include_go.induct)
  case (1 w r n st)
  then show ?case by simp
next
  case (2 k w r n st)
  show ?case
  proof (cases "AddVertex (graph st) \<lparr>URI = Location n, vertex_Taskfile = None\<rparr>")
    case (Inl err)
    with "2.prems" show ?thesis by simp
  next
    case (Inr g)
    note av = this
    obtain y st1 where
      rn: "readNode w r n (log (EvAddVertex (Location n)) (st\<lparr>graph := g\<rparr>)) = (y, st1)"
      by (cases "readNode w r n (log (EvAddVertex (Location n)) (st\<lparr>graph := g\<rparr>))") auto
    show ?thesis
    proof (cases y)
      case (Inl err)
      with "2.prems" av rn show ?thesis by simp
    next
      case (Inr tf)
      note yr = this
      have "include_loop k w r n tf (run_order (schedule w (Location n)) (Includes tf))
              (st1\<lparr>graph := set_vertex_Taskfile (graph st1) (Location n) tf\<rparr>) = Some x"
        using "2.prems" av rn yr by simp
      from "2.IH" [OF av rn [symmetric] yr this]
      show ?thesis using av rn yr by simp
    qed
  qed
next
  case (3 k w r n tf st)
  then show ?case by simp
next
  case (4 k w r n tf inc incs st)
  from "4.prems" obtain err1 st1 err2 st2 where
    go: "include_go k w r n tf inc st = Some (err1, st1)" and
    rest: "include_loop k w r n tf incs st1 = Some (err2, st2)" and
    x: "x = (case err1 of Some e \<Rightarrow> Some e | None \<Rightarrow> err2, st2)"
    by (auto split: option.splits prod.splits)
  from "4.IH"(1) [OF go] "4.IH"(2) [OF go _ rest] x
  show ?case by (simp del: include_go.simps)
next
  case (5 k w r n tf inc0 st)
  let ?vars = "vars_Merge (GetEnviron w) (tf_Vars tf)"
  let ?inc1 = "replace_include w ?vars inc0"
  show ?case
  proof (cases "\<exists>entrypoint dir m. templater_Err w ?vars inc0 = None
      \<and> ResolveEntrypoint n (Taskfile ?inc1) = Inr entrypoint
      \<and> ResolveDir n (Dir ?inc1) = Inr dir
      \<and> NewNode w entrypoint (Dir (?inc1\<lparr>Dir := dir\<rparr>)) (insecure r) (timeout r) n = Inr m")
    case True
    then obtain entrypoint dir m where
      e1: "templater_Err w ?vars inc0 = None" and
      e2: "ResolveEntrypoint n (Taskfile ?inc1) = Inr entrypoint" and
      e3: "ResolveDir n (Dir ?inc1) = Inr dir" and
      e4: "NewNode w entrypoint (Dir (?inc1\<lparr>Dir := dir\<rparr>)) (insecure r) (timeout r) n = Inr m"
      by blast
    from "5.prems" e1 e2 e3 e4 obtain y where ry: "reader_include k w r m st = Some y"
      by (cases "reader_include k w r m st") (auto simp: Let_def)
    from "5.IH" [OF refl refl e1 e2 e3 refl e4 ry]
    have "reader_include (Suc k) w r m st = Some y" .
    with "5.prems" e1 e2 e3 e4 ry show ?thesis by (simp add: Let_def)
  next
    case False
    with "5.prems" show ?thesis
      by (auto simp: Let_def split: option.splits sum.splits)
  qed
qed

lemma Read_fuel:
  assumes "Read k w r st = Some x"
  shows "Read (Suc k) w r st = Some x"
proof -
  from assms obtain y where y: "reader_include k w r (node r) st = Some y"
    by (auto simp: Read_def split: option.splits)
  from include_fuel(1) [OF y] y assms show ?thesis
    by (simp add: Read_def del: reader_include.simps)
qed

subsection \<open>The schedule\<close>

text \<open>The goroutines of a join run in some order of the includes, and every order is
  the run order under some schedule.\<close>

lemma run_order_mset: "mset (run_order ps xs) = mset xs"
proof (induction ps xs rule: run_order.induct)
  case (3 p ps x xs)
  let ?xs = "x # xs"
  let ?i = "p mod length ?xs"
  have i: "?i < length ?xs" by simp
  have "mset ?xs = mset (take ?i ?xs @ ?xs ! ?i # drop (Suc ?i) ?xs)"
    using id_take_nth_drop [OF i] by simp
  then have "mset ?xs = add_mset (?xs ! ?i) (mset (take ?i ?xs @ drop (Suc ?i) ?xs))"
    by simp
  with 3 show ?case by simp
qed simp_all

lemma run_order_complete:
  assumes "mset ys = mset xs"
  shows "\<exists>ps. run_order ps xs = ys"
  using assms
proof (induction ys arbitrary: xs)
  case Nil
  then show ?case by simp
next
  case (Cons y ys)
  from Cons.prems have "y \<in> set xs" by (metis list.set_intros(1) set_mset_mset)
  then obtain i where i: "i < length xs" and y: "xs ! i = y" by (auto simp: in_set_conv_nth)
  have "mset xs = mset (take i xs @ xs ! i # drop (Suc i) xs)"
    using id_take_nth_drop [OF i] by simp
  with Cons.prems y have "mset ys = mset (take i xs @ drop (Suc i) xs)" by simp
  from Cons.IH [OF this] obtain ps where ps: "run_order ps (take i xs @ drop (Suc i) xs) = ys" ..
  from i obtain x xs' where xs: "xs = x # xs'" by (cases xs) auto
  have "run_order (i # ps) xs = y # ys"
    using i y ps unfolding xs by simp
  then show ?case ..
qed


subsection \<open>Enough fuel\<close>





subsection \<open>The goroutine, branch by branch\<close>






subsection \<open>The graph is acyclic\<close>




subsection \<open>One vertex, one read and one decoding per location\<close>

text \<open>
  Claim C2.  In a state where every location has at most one vertex and has been read
  and decoded at most once (which holds for a new Reader): \<^verbatim>\<open>include\<close> of a location
  that has a vertex returns success at once and leaves the state as it is, so nothing
  is read, decoded or inserted; and after any call of \<^verbatim>\<open>include\<close> that returns, the
  same holds again, the location of the call has exactly one vertex, no location has
  been read or decoded twice, and every location whose document is attached to its
  vertex has been decoded exactly once.  No sequence of graph operations, in whatever
  order the goroutines take them, gives a location a second vertex.  In the witness \<open>B\<close> and \<open>C\<close> both include
  \<open>D\<close>: one vertex for \<open>D\<close>, the edges \<open>B \<rightarrow> D\<close> and \<open>C \<rightarrow> D\<close>, no error.
\<close>

theorem include_once:
  assumes "visited_once st"
  shows "(Location n \<in> set (vertex_ids (graph st)) \<longrightarrow>
            reader_include (Suc k) w r n st = Some (None, st))
       \<and> (reader_include k w r n st = Some (e, st') \<longrightarrow>
            visited_once st'
          \<and> count_list (vertex_ids (graph st')) (Location n) = 1
          \<and> count_list (node_reads (trace st')) l \<le> 1
          \<and> count_list (parses (trace st')) l \<le> 1
          \<and> (l \<in> set (attached (graph st')) \<longrightarrow> count_list (parses (trace st')) l = 1))
       \<and> (graph_steps st st4 \<longrightarrow> distinct (vertex_ids (graph st4)))"
proof (intro conjI impI)
  assume "Location n \<in> set (vertex_ids (graph st))"
  then show "reader_include (Suc k) w r n st = Some (None, st)" by (rule include_existing)
next
  assume run: "reader_include k w r n st = Some (e, st')"
  show inv: "visited_once st'" using include_visited_once [OF run assms] .
  show "count_list (vertex_ids (graph st')) (Location n) = 1"
    using inv include_adds_vertex [OF run] by (simp add: visited_once_def distinct_count_list)
  show "count_list (node_reads (trace st')) l \<le> 1"
    using inv by (simp add: visited_once_def distinct_count_list)
  show "count_list (parses (trace st')) l \<le> 1"
    using inv by (simp add: visited_once_def distinct_count_list)
  assume "l \<in> set (attached (graph st'))"
  with inv show "count_list (parses (trace st')) l = 1"
    by (auto simp: visited_once_def distinct_count_list)
next
  assume "graph_steps st st4"
  then show "distinct (vertex_ids (graph st4))"
    using assms by (simp add: graph_steps_vertices visited_once_def)
qed

theorem include_once_witness:
  "visited_once ex_new
   \<and> returned (ex_Read 3 ex_diamond ''A'')
   \<and> Read_error (ex_Read 3 ex_diamond ''A'') = None
   \<and> vertex_ids (Reader_graph (ex_Read 3 ex_diamond ''A'')) = [''A'', ''B'', ''D'', ''C'']
   \<and> edge_pairs (Reader_graph (ex_Read 3 ex_diamond ''A''))
       = [(''B'', ''D''), (''A'', ''B''), (''C'', ''D''), (''A'', ''C'')]
   \<and> parses (Read_trace (ex_Read 3 ex_diamond ''A'')) = [''A'', ''B'', ''D'', ''C'']
   \<and> node_reads (Read_trace (ex_Read 3 ex_diamond ''A'')) = [''A'', ''B'', ''D'', ''C'']
   \<and> visited_once ex_visited
   \<and> Location (ex_node ''D'') \<in> set (vertex_ids (graph ex_visited))
   \<and> reader_include (Suc 0) (ex_world ex_diamond) (NewReader (ex_world ex_diamond) (ex_node ''A''))
        (ex_node ''D'') ex_visited = Some (None, ex_visited)
   \<and> graph_steps ex_new ex_linked
   \<and> distinct (vertex_ids (graph ex_linked))"
proof -
  let ?X = "ex_Read 3 ex_diamond ''A''"
  let ?w = "ex_world ex_diamond"
  let ?r = "NewReader ?w (ex_node ''A'')"
  have r: "returned ?X" by code_simp
  have e: "Read_error ?X = None" by code_simp
  have p: "edge_pairs (Reader_graph ?X) = [(''B'', ''D''), (''A'', ''B''), (''C'', ''D''), (''A'', ''C'')]"
    by code_simp
  have t: "parses (Read_trace ?X) = [''A'', ''B'', ''D'', ''C'']" by code_simp
  have n: "node_reads (Read_trace ?X) = [''A'', ''B'', ''D'', ''C'']" by code_simp
  have v0: "set (vertex_ids (Reader_graph ?X)) = {''A'', ''B'', ''C'', ''D''}" by code_simp
  have v: "vertex_ids (Reader_graph ?X) = [''A'', ''B'', ''D'', ''C'']" by code_simp
  from r obtain g' e' st' where
    X: "Read 3 ?w ?r ex_new = Some (g', e', st')"
    and G: "Reader_graph ?X = graph st'" and T: "Read_trace ?X = trace st'"
    by (rule ex_Read_Some)
  have "reader_include 3 ?w ?r (ex_node ''A'') ex_new = Some (e', st')"
    using Read_Some(1) [OF X] by (simp add: NewReader_def)
  with include_once [OF ex_new_ok(4), of "ex_node ''A''" 3 ?w ?r e' st' "''D''"]
  have "visited_once st'" by simp
  have h: "visited_once ex_visited"
    by (simp add: ex_visited_def ex_new_def new_state_def visited_once_def vertex_ids_def attached_def)
  have m: "Location (ex_node ''D'') \<in> set (vertex_ids (graph ex_visited))"
    by (simp add: ex_visited_def ex_node_def vertex_ids_def)
  from include_once [OF h, of "ex_node ''D''" 0 ?w ?r] m
  have i: "reader_include (Suc 0) ?w ?r (ex_node ''D'') ex_visited = Some (None, ex_visited)"
    by blast
  from include_once [where st = ex_new and ?st4.0 = ex_linked, OF ex_new_ok(4)] ex_linked_steps
  have q: "distinct (vertex_ids (graph ex_linked))" by simp
  from ex_new_ok(4) r e v p t n h m i ex_linked_steps q show ?thesis by simp
qed

subsection \<open>One edge per pair of vertices\<close>

text \<open>
  Claim C6.  In a graph with at most one edge per ordered pair of vertices and with
  every weight equal to the length of the payload (as in the graph of a new Reader),
  the edge step keeps both.  When the pair has no edge (and the edge closes no
  cycle), the step appends the edge with the one include as payload and weight 1.
  When the pair has an edge, the step leaves the pairs as they are, and the edge of
  the pair afterwards is the former one with the include appended to its payload and
  the weight set to the new length.  Both properties hold in the graph of the Reader
  whenever \<^verbatim>\<open>Read\<close> returns, and after every sequence of graph operations, in whatever
  order the goroutines take them.  In the witness \<open>A\<close> includes \<open>B\<close> by two declarations:
  one edge, a payload of the two includes, weight 2.
\<close>

theorem edge_aggregation:
  assumes "distinct (edge_pairs (graph st))" and "weights_ok (graph st)"
  shows "distinct (edge_pairs (graph (snd (add_include_edge n m inc st))))
       \<and> weights_ok (graph (snd (add_include_edge n m inc st)))
       \<and> ((Location n, Location m) \<notin> set (edge_pairs (graph st))
            \<and> \<not> creates_cycle (graph st) (Location n) (Location m) \<longrightarrow>
            fst (add_include_edge n m inc st) = None
          \<and> edges (graph (snd (add_include_edge n m inc st))) =
              edges (graph st) @
              [\<lparr>Source = Location n, Target = Location m, Data = [inc], Weight = 1\<rparr>])
       \<and> (graph_Edge (graph st) (Location n) (Location m) = Inr edge \<longrightarrow>
            fst (add_include_edge n m inc st) = None
          \<and> graph_Edge (graph (snd (add_include_edge n m inc st))) (Location n) (Location m) =
              Inr (edge\<lparr>Data := Data edge @ [inc], Weight := int (length (Data edge)) + 1\<rparr>)
          \<and> edge_pairs (graph (snd (add_include_edge n m inc st))) = edge_pairs (graph st))
       \<and> (Read k w r st = Some (g, e, st') \<longrightarrow>
            distinct (edge_pairs (graph st')) \<and> weights_ok (graph st'))
       \<and> (graph_steps st st4 \<longrightarrow>
            distinct (edge_pairs (graph st4)) \<and> weights_ok (graph st4))"
proof (intro conjI impI)
  show "distinct (edge_pairs (graph (snd (add_include_edge n m inc st))))"
    using assms(1) by (rule add_include_edge_distinct)
  show "weights_ok (graph (snd (add_include_edge n m inc st)))"
    using assms(2) by (rule add_include_edge_weights)
next
  assume a: "(Location n, Location m) \<notin> set (edge_pairs (graph st))
             \<and> \<not> creates_cycle (graph st) (Location n) (Location m)"
  then have "graph_Edge (graph st) (Location n) (Location m) = Inl ErrEdgeNotFound"
    by (simp add: graph_Edge_absent)
  from add_include_edge_new [OF this, of inc] a
  show "fst (add_include_edge n m inc st) = None"
    and "edges (graph (snd (add_include_edge n m inc st))) =
           edges (graph st) @
           [\<lparr>Source = Location n, Target = Location m, Data = [inc], Weight = 1\<rparr>]"
    by simp_all
next
  assume f: "graph_Edge (graph st) (Location n) (Location m) = Inr edge"
  note u = add_include_edge_update [OF f, of inc]
  show "fst (add_include_edge n m inc st) = None" using u by simp
  show "graph_Edge (graph (snd (add_include_edge n m inc st))) (Location n) (Location m) =
          Inr (edge\<lparr>Data := Data edge @ [inc], Weight := int (length (Data edge)) + 1\<rparr>)"
    using u graph_Edge_after_update [OF f] by simp
  show "edge_pairs (graph (snd (add_include_edge n m inc st))) = edge_pairs (graph st)"
    using u by simp
next
  assume rd: "Read k w r st = Some (g, e, st')"
  from include_edges_ok [OF Read_Some(1) [OF rd]] assms
  show "distinct (edge_pairs (graph st'))" and "weights_ok (graph st')" by simp_all
next
  assume "graph_steps st st4"
  from graph_steps_edges_ok [OF this assms]
  show "distinct (edge_pairs (graph st4))" and "weights_ok (graph st4)" by simp_all
qed

theorem edge_aggregation_witness:
  "distinct (edge_pairs (graph ex_new)) \<and> weights_ok (graph ex_new)
   \<and> returned (ex_Read 2 ex_twice ''A'')
   \<and> Read_error (ex_Read 2 ex_twice ''A'') = None
   \<and> edges (Reader_graph (ex_Read 2 ex_twice ''A''))
       = [\<lparr>Source = ''A'', Target = ''B'', Data = [ex_include ''B'' False, ex_again], Weight = 2\<rparr>]
   \<and> weights_ok (Reader_graph (ex_Read 2 ex_twice ''A''))
   \<and> distinct (edge_pairs (Reader_graph (ex_Read 2 ex_twice ''A'')))
   \<and> edges (graph (snd (add_include_edge (ex_node ''A'') (ex_node ''B'') (ex_include ''B'' False) ex_new)))
       = [\<lparr>Source = ''A'', Target = ''B'', Data = [ex_include ''B'' False], Weight = 1\<rparr>]
   \<and> graph_steps ex_new ex_linked
   \<and> distinct (edge_pairs (graph ex_linked)) \<and> weights_ok (graph ex_linked)
   \<and> graph_Edge (graph ex_linked) ''B'' ''A''
       = Inr \<lparr>Source = ''B'', Target = ''A'', Data = [ex_include ''A'' False], Weight = 1\<rparr>
   \<and> graph_Edge (graph (snd (add_include_edge (ex_node ''B'') (ex_node ''A'') (ex_include ''A'' True) ex_linked)))
        ''B'' ''A''
       = Inr \<lparr>Source = ''B'', Target = ''A'', Data = [ex_include ''A'' False, ex_include ''A'' True],
              Weight = 2\<rparr>"
proof -
  let ?X = "ex_Read 2 ex_twice ''A''"
  have r: "returned ?X" by code_simp
  have e: "Read_error ?X = None" by code_simp
  have d: "edges (Reader_graph ?X)
       = [\<lparr>Source = ''A'', Target = ''B'', Data = [ex_include ''B'' False, ex_again], Weight = 2\<rparr>]"
    by code_simp
  from r obtain g' e' st' where
    X: "Read 2 (ex_world ex_twice) (NewReader (ex_world ex_twice) (ex_node ''A'')) ex_new = Some (g', e', st')"
    and G: "Reader_graph ?X = graph st'"
    by (rule ex_Read_Some)
  from edge_aggregation [OF ex_new_ok(2,3), of _ _ _ _ 2 "ex_world ex_twice"
      "NewReader (ex_world ex_twice) (ex_node ''A'')" g' e' st'] X G
  have w: "weights_ok (Reader_graph ?X)" "distinct (edge_pairs (Reader_graph ?X))" by simp_all
  have c1: "(''A'', ''B'') \<notin> set (edge_pairs (graph ex_new))"
    by (simp add: ex_new_def new_state_def NewTaskfileGraph_def edge_pairs_def)
  have c2: "\<not> creates_cycle (graph ex_new) ''A'' ''B''" by code_simp
  from edge_aggregation [OF ex_new_ok(2,3), of "ex_node ''A''" "ex_node ''B''" "ex_include ''B'' False"]
    c1 c2
  have n: "edges (graph (snd (add_include_edge (ex_node ''A'') (ex_node ''B'') (ex_include ''B'' False) ex_new)))
       = edges (graph ex_new) @ [\<lparr>Source = ''A'', Target = ''B'', Data = [ex_include ''B'' False], Weight = 1\<rparr>]"
    by (simp add: ex_node_Location)
  then have n': "edges (graph (snd (add_include_edge (ex_node ''A'') (ex_node ''B'') (ex_include ''B'' False) ex_new)))
       = [\<lparr>Source = ''A'', Target = ''B'', Data = [ex_include ''B'' False], Weight = 1\<rparr>]"
    by (simp add: ex_new_def new_state_def NewTaskfileGraph_def)
  have f: "graph_Edge (graph ex_linked) ''B'' ''A''
       = Inr \<lparr>Source = ''B'', Target = ''A'', Data = [ex_include ''A'' False], Weight = 1\<rparr>"
    by (simp add: ex_linked_def graph_Edge_def is_edge_def)
  from edge_aggregation [where st = ex_new and ?st4.0 = ex_linked, OF ex_new_ok(2,3)] ex_linked_steps
  have q: "distinct (edge_pairs (graph ex_linked))" "weights_ok (graph ex_linked)" by simp_all
  from edge_aggregation [OF q, of "ex_node ''B''" "ex_node ''A''" "ex_include ''A'' True"
      "\<lparr>Source = ''B'', Target = ''A'', Data = [ex_include ''A'' False], Weight = 1\<rparr>"] f
  have u: "graph_Edge (graph (snd (add_include_edge (ex_node ''B'') (ex_node ''A'') (ex_include ''A'' True) ex_linked)))
        ''B'' ''A''
       = Inr \<lparr>Source = ''B'', Target = ''A'', Data = [ex_include ''A'' False, ex_include ''A'' True],
              Weight = 2\<rparr>"
    by (simp add: ex_node_Location)
  from ex_new_ok(2,3) r e d w n' ex_linked_steps q f u show ?thesis by simp
qed

subsection \<open>Optional includes\<close>




subsection \<open>What Read returns on error\<close>

text \<open>
  Claim C8, as amended.  Whenever \<^verbatim>\<open>Read\<close> returns, the state of the Reader is the one
  \<^verbatim>\<open>include\<close> left, so the graph built before a failure stays in \<^verbatim>\<open>r.graph\<close> and is not
  reset; but with an error \<^verbatim>\<open>Read\<close> returns no graph (\<^verbatim>\<open>nil\<close>), and it returns the graph
  of the Reader only on success.
\<close>

theorem Read_error_no_graph:
  assumes "Read k w r st = Some (g, e, st')"
  shows "reader_include k w r (node r) st = Some (e, st')
       \<and> g = (case e of None \<Rightarrow> Some (graph st') | Some err \<Rightarrow> None)"
  using assms by (auto simp: Read_def split: option.splits prod.splits)

theorem Read_error_no_graph_witness:
  "returned (ex_Read 2 ex_late_unreadable ''A'')
   \<and> Read_error (ex_Read 2 ex_late_unreadable ''A'') = Some (OtherError ''unreadable'')
   \<and> Read_graph (ex_Read 2 ex_late_unreadable ''A'') = None
   \<and> vertex_ids (Reader_graph (ex_Read 2 ex_late_unreadable ''A'')) = [''A'', ''B'', ''C'']
   \<and> edge_pairs (Reader_graph (ex_Read 2 ex_late_unreadable ''A'')) = [(''A'', ''B'')]"
proof -
  let ?X = "ex_Read 2 ex_late_unreadable ''A''"
  have r: "returned ?X" by code_simp
  have e: "Read_error ?X = Some (OtherError ''unreadable'')" by code_simp
  have v: "vertex_ids (Reader_graph ?X) = [''A'', ''B'', ''C'']" by code_simp
  have p: "edge_pairs (Reader_graph ?X) = [(''A'', ''B'')]" by code_simp
  from r obtain g' e' st' where
    X: "Read 2 (ex_world ex_late_unreadable) (NewReader (ex_world ex_late_unreadable) (ex_node ''A'')) ex_new
          = Some (g', e', st')"
    and G: "Read_graph ?X = g'" and E: "Read_error ?X = e'"
    by (rule ex_Read_Some)
  from Read_error_no_graph [OF X] e G E
  have "Read_graph ?X = None" by simp
  with r e v p show ?thesis by simp
qed

text \<open>
  Claim C8 as it is written fails: \<open>A\<close> includes \<open>B\<close> and a missing \<open>M\<close>.  The Reader has
  built the vertices \<open>A\<close>, \<open>B\<close> and the edge between them when the branch of \<open>M\<close>
  fails, and \<^verbatim>\<open>Read\<close> returns the error with no graph.
\<close>

theorem partial_graph_counterexample:
  "returned (ex_Read 2 ex_late_missing ''A'')
   \<and> Read_error (ex_Read 2 ex_late_missing ''A'') = Some ErrNotExist
   \<and> Read_graph (ex_Read 2 ex_late_missing ''A'') = None
   \<and> vertex_ids (Reader_graph (ex_Read 2 ex_late_missing ''A'')) = [''A'', ''B'']
   \<and> edge_pairs (Reader_graph (ex_Read 2 ex_late_missing ''A'')) = [(''A'', ''B'')]"
  by code_simp

subsection \<open>Locations of the document and of its tasks\<close>

text \<open>What the body of the loop does to a task whose location is allocated, and
  what the loop does to the tasks map that the decoder makes: every task of the heap
  is met once.  A \<^verbatim>\<open>nil\<close> pointer in the map would make the body panic; the decoder
  makes none.\<close>

lemma set_task_location_Some:
  assumes "a < length h" and "Task_Location (h ! a) = Some l"
  shows "set_task_location loc (Some a) h =
           Inr (h[a := (h ! a)\<lparr>Task_Location :=
                  Some \<lparr>Location_Taskfile = (if Location_Taskfile l = [] then loc
                                             else Location_Taskfile l)\<rparr>\<rparr>])"
proof -
  obtain x where l: "l = \<lparr>Location_Taskfile = x\<rparr>" by (cases l) simp
  have same: "(h ! a)\<lparr>Task_Location := Some \<lparr>Location_Taskfile = x\<rparr>\<rparr> = h ! a"
    using assms(2) l by (cases "h ! a") auto
  show ?thesis
  proof (cases "x = []")
    case True
    with assms l show ?thesis by (simp add: set_task_location_def)
  next
    case False
    with assms l show ?thesis by (simp add: set_task_location_def same)
  qed
qed

lemma set_task_location_nil:
  "set_task_location loc None h
     = Inl (Panic ''invalid memory address or nil pointer dereference'')"
  by (simp add: set_task_location_def new_Task_def)

lemma decode_Task_Location:
  "Task_Location (decode_Task v) =
     Some \<lparr>Location_Taskfile = (case v of None \<Rightarrow> [] | Some t \<Rightarrow> yaml_provenance t)\<rparr>"
  by (simp add: decode_Task_def split: option.split)

lemma set_task_locations_decoded:
  assumes "length h = i + length names"
    and "\<And>a. a < length h \<Longrightarrow> Task_Location (h ! a) \<noteq> None"
  shows "\<exists>h'. set_task_locations loc (zip names (map Some [i..<i + length names])) h = Inr h'
           \<and> length h' = length h
           \<and> (\<forall>a < length h. h' ! a =
                 (if i \<le> a
                  then (h ! a)\<lparr>Task_Location :=
                         Some \<lparr>Location_Taskfile =
                           (if Location_Taskfile (the (Task_Location (h ! a))) = [] then loc
                            else Location_Taskfile (the (Task_Location (h ! a))))\<rparr>\<rparr>
                  else h ! a))"
  using assms
proof (induction names arbitrary: i h)
  case Nil
  then show ?case by simp
next
  case (Cons name names)
  let ?s = "\<lambda>t. t\<lparr>Task_Location :=
                 Some \<lparr>Location_Taskfile =
                   (if Location_Taskfile (the (Task_Location t)) = [] then loc
                    else Location_Taskfile (the (Task_Location t)))\<rparr>\<rparr>"
  from Cons.prems(1) have i: "i < length h" by simp
  from Cons.prems(2) [OF i] obtain l where l: "Task_Location (h ! i) = Some l" by auto
  let ?h1 = "h[i := ?s (h ! i)]"
  have step: "set_task_location loc (Some i) h = Inr ?h1"
    using set_task_location_Some [OF i l, of loc] l by simp
  have up: "[i..<i + length (name # names)] = i # [Suc i..<Suc i + length names]"
    using upt_conv_Cons [of i "Suc i + length names"] by simp
  have len: "length ?h1 = Suc i + length names" using Cons.prems(1) by simp
  have alloc: "\<And>a. a < length ?h1 \<Longrightarrow> Task_Location (?h1 ! a) \<noteq> None"
    using Cons.prems(2) i by (auto simp: nth_list_update)
  from Cons.IH [OF len alloc] obtain h' where
    r: "set_task_locations loc (zip names (map Some [Suc i..<Suc i + length names])) ?h1 = Inr h'"
    and n: "length h' = length ?h1"
    and v: "\<forall>a < length ?h1. h' ! a = (if Suc i \<le> a then ?s (?h1 ! a) else ?h1 ! a)"
    by blast
  have "set_task_locations loc (zip (name # names) (map Some [i..<i + length (name # names)])) h
          = Inr h'"
    using step r by (simp only: up) simp
  moreover have "length h' = length h" using n by simp
  moreover have "\<forall>a < length h. h' ! a = (if i \<le> a then ?s (h ! a) else h ! a)"
  proof (intro allI impI)
    fix a assume a: "a < length h"
    with v have "h' ! a = (if Suc i \<le> a then ?s (?h1 ! a) else ?h1 ! a)" by simp
    then show "h' ! a = (if i \<le> a then ?s (h ! a) else h ! a)"
      using a by (cases "a = i") (simp_all add: nth_list_update)
  qed
  ultimately show ?case by blast
qed

lemma readNode_decoded:
  assumes "fst (loadNodeContent w r n st) = Inr b" and "yaml_document w b = Inr y"
    and "yaml_Version y \<noteq> None"
  shows "\<exists>tf. fst (readNode w r n st) = Inr tf
           \<and> tf_Location tf = Location n
           \<and> Tasks tf = zip (map fst (yaml_Tasks y)) (map Some [0..<length (yaml_Tasks y)])
           \<and> length (Task_heap tf) = length (yaml_Tasks y)
           \<and> (\<forall>a < length (yaml_Tasks y). Task_heap tf ! a =
                 \<lparr>Task_Location = Some \<lparr>Location_Taskfile =
                    (case snd (yaml_Tasks y ! a) of
                       None \<Rightarrow> Location n
                     | Some t \<Rightarrow> if yaml_provenance t = [] then Location n else yaml_provenance t)\<rparr>,
                  Task_rest = (case snd (yaml_Tasks y ! a) of None \<Rightarrow> [] | Some t \<Rightarrow> yaml_rest t)\<rparr>)"
proof -
  let ?ys = "yaml_Tasks y"
  let ?h = "map (\<lambda>(name, v). decode_Task v) ?ys"
  have len: "length ?h = 0 + length (map fst ?ys)" by simp
  have alloc: "\<And>a. a < length ?h \<Longrightarrow> Task_Location (?h ! a) \<noteq> None"
    by (simp add: decode_Task_Location split: prod.split)
  from set_task_locations_decoded [OF len alloc, of "Location n"] obtain h' where
    r: "set_task_locations (Location n) (zip (map fst ?ys) (map Some [0..<length ?ys])) ?h = Inr h'"
    and n: "length h' = length ?ys"
    and v: "\<forall>a < length ?ys. h' ! a =
             (?h ! a)\<lparr>Task_Location :=
                Some \<lparr>Location_Taskfile =
                  (if Location_Taskfile (the (Task_Location (?h ! a))) = [] then Location n
                   else Location_Taskfile (the (Task_Location (?h ! a))))\<rparr>\<rparr>"
    by auto
  obtain st1 where l: "loadNodeContent w r n st = (Inr b, st1)"
    using assms(1) by (cases "loadNodeContent w r n st") auto
  have rn: "fst (readNode w r n st) =
          Inr ((decode_Taskfile y)\<lparr>tf_Location := Location n, Task_heap := h'\<rparr>)"
    using l assms(2,3) r
    by (simp add: readNode_def yaml_Unmarshal_def decode_Taskfile_def Let_def)
  have "\<forall>a < length ?ys. h' ! a =
          \<lparr>Task_Location = Some \<lparr>Location_Taskfile =
             (case snd (?ys ! a) of
                None \<Rightarrow> Location n
              | Some t \<Rightarrow> if yaml_provenance t = [] then Location n else yaml_provenance t)\<rparr>,
           Task_rest = (case snd (?ys ! a) of None \<Rightarrow> [] | Some t \<Rightarrow> yaml_rest t)\<rparr>"
  proof (intro allI impI)
    fix a assume a: "a < length ?ys"
    obtain name v0 where e: "?ys ! a = (name, v0)" by (cases "?ys ! a")
    from v a e show "h' ! a =
          \<lparr>Task_Location = Some \<lparr>Location_Taskfile =
             (case snd (?ys ! a) of
                None \<Rightarrow> Location n
              | Some t \<Rightarrow> if yaml_provenance t = [] then Location n else yaml_provenance t)\<rparr>,
           Task_rest = (case snd (?ys ! a) of None \<Rightarrow> [] | Some t \<Rightarrow> yaml_rest t)\<rparr>"
      by (simp add: decode_Task_def split: option.split)
  qed
  with rn n show ?thesis by (simp add: decode_Taskfile_def)
qed

text \<open>
  Claim C9.  When the content of a node is loaded, the parser finds a document in it
  and the document has a version, \<^verbatim>\<open>readNode\<close> returns a Taskfile whose location is the
  location of the node, and whose tasks map has the names of the tasks block and no
  other: a name whose value is absent or null denotes an empty task record, stamped
  with the location of the document; a name whose task has no provenance denotes
  that task, stamped with the location of the document; a name whose task carries a
  provenance denotes that task as it was.
\<close>

theorem readNode_locations:
  assumes "fst (loadNodeContent w r n st) = Inr b" and "yaml_document w b = Inr y"
    and "yaml_Version y \<noteq> None" and "distinct (map fst (yaml_Tasks y))"
  shows "\<exists>tf. fst (readNode w r n st) = Inr tf
           \<and> tf_Location tf = Location n
           \<and> (\<forall>name. task_of tf name =
                 (case map_of (yaml_Tasks y) name of
                    None \<Rightarrow> None
                  | Some None \<Rightarrow>
                      Some (Some \<lparr>Task_Location = Some \<lparr>Location_Taskfile = Location n\<rparr>,
                                  Task_rest = []\<rparr>)
                  | Some (Some t) \<Rightarrow>
                      Some (Some \<lparr>Task_Location = Some \<lparr>Location_Taskfile =
                                    (if yaml_provenance t = [] then Location n
                                     else yaml_provenance t)\<rparr>,
                                  Task_rest = yaml_rest t\<rparr>)))"
proof -
  let ?ys = "yaml_Tasks y"
  from readNode_decoded [OF assms(1,2,3)] obtain tf where
    rn: "fst (readNode w r n st) = Inr tf" and loc: "tf_Location tf = Location n"
    and ts: "Tasks tf = zip (map fst ?ys) (map Some [0..<length ?ys])"
    and hp: "\<forall>a < length ?ys. Task_heap tf ! a =
                 \<lparr>Task_Location = Some \<lparr>Location_Taskfile =
                    (case snd (?ys ! a) of
                       None \<Rightarrow> Location n
                     | Some t \<Rightarrow> if yaml_provenance t = [] then Location n else yaml_provenance t)\<rparr>,
                  Task_rest = (case snd (?ys ! a) of None \<Rightarrow> [] | Some t \<Rightarrow> yaml_rest t)\<rparr>"
    by blast
  have "task_of tf name =
          (case map_of ?ys name of
             None \<Rightarrow> None
           | Some None \<Rightarrow>
               Some (Some \<lparr>Task_Location = Some \<lparr>Location_Taskfile = Location n\<rparr>, Task_rest = []\<rparr>)
           | Some (Some t) \<Rightarrow>
               Some (Some \<lparr>Task_Location = Some \<lparr>Location_Taskfile =
                             (if yaml_provenance t = [] then Location n else yaml_provenance t)\<rparr>,
                           Task_rest = yaml_rest t\<rparr>))" for name
  proof (cases "map_of ?ys name")
    case None
    then have "name \<notin> set (map fst ?ys)" by (simp add: map_of_eq_None_iff)
    then have z: "map_of (Tasks tf) name = None"
      unfolding ts by simp
    show ?thesis using None by (simp add: task_of_def z)
  next
    case (Some v)
    then have "(name, v) \<in> set ?ys" by (rule map_of_SomeD)
    then obtain a where a: "a < length ?ys" and e: "?ys ! a = (name, v)"
      by (auto simp: in_set_conv_nth)
    have "map_of (zip (map fst ?ys) (map Some [0..<length ?ys])) (map fst ?ys ! a)
            = Some (map Some [0..<length ?ys] ! a)"
      using a assms(4) by (intro map_of_zip_nth) simp_all
    then have "map_of (Tasks tf) name = Some (Some a)" using a e ts by simp
    with hp a e Some show ?thesis by (simp add: task_of_def split: option.split)
  qed
  with rn loc show ?thesis by blast
qed

theorem readNode_locations_witness:
  "fst (loadNodeContent ex_tasks_world (NewReader ex_tasks_world (ex_node ''Taskfile.yml''))
         (ex_node ''Taskfile.yml'') ex_new) = Inr ''Taskfile.yml''
   \<and> yaml_document ex_tasks_world ''Taskfile.yml'' = Inr ex_tasks
   \<and> yaml_Version ex_tasks = Some ''3''
   \<and> map fst (yaml_Tasks ex_tasks) = [''build'', ''test'', ''lint'']
   \<and> map_option tf_Location ex_tasks_read = Some ''Taskfile.yml''
   \<and> ex_tasks_task ''build''
       = Some (Some (Some \<lparr>Task_Location = Some \<lparr>Location_Taskfile = ''Taskfile.yml''\<rparr>,
                           Task_rest = []\<rparr>))
   \<and> ex_tasks_task ''test''
       = Some (Some (Some \<lparr>Task_Location = Some \<lparr>Location_Taskfile = ''Taskfile.yml''\<rparr>,
                           Task_rest = ''go test''\<rparr>))
   \<and> ex_tasks_task ''lint''
       = Some (Some (Some \<lparr>Task_Location = Some \<lparr>Location_Taskfile = ''other.yml''\<rparr>,
                           Task_rest = ''golint''\<rparr>))
   \<and> ex_tasks_task ''run'' = Some None"
proof -
  let ?n = "ex_node ''Taskfile.yml''"
  let ?r = "NewReader ex_tasks_world ?n"
  have h1: "fst (loadNodeContent ex_tasks_world ?r ?n ex_new) = Inr ''Taskfile.yml''"
    by (simp add: loadNodeContent_def read_node_def ex_node_def)
  have h2: "yaml_document ex_tasks_world ''Taskfile.yml'' = Inr ex_tasks"
    by (simp add: ex_tasks_world_def)
  have h3: "yaml_Version ex_tasks \<noteq> None" by (simp add: ex_tasks_def ex_document_def)
  have h3': "yaml_Version ex_tasks = Some ''3''" by (simp add: ex_tasks_def ex_document_def)
  have h4: "distinct (map fst (yaml_Tasks ex_tasks))" by (simp add: ex_tasks_def)
  have h4': "map fst (yaml_Tasks ex_tasks) = [''build'', ''test'', ''lint'']"
    by (simp add: ex_tasks_def)
  from readNode_locations [OF h1 h2 h3 h4] obtain tf where
    rn: "fst (readNode ex_tasks_world ?r ?n ex_new) = Inr tf"
    and loc: "tf_Location tf = Location ?n"
    and ts: "\<And>name. task_of tf name =
                 (case map_of (yaml_Tasks ex_tasks) name of
                    None \<Rightarrow> None
                  | Some None \<Rightarrow>
                      Some (Some \<lparr>Task_Location = Some \<lparr>Location_Taskfile = Location ?n\<rparr>,
                                  Task_rest = []\<rparr>)
                  | Some (Some t) \<Rightarrow>
                      Some (Some \<lparr>Task_Location = Some \<lparr>Location_Taskfile =
                                    (if yaml_provenance t = [] then Location ?n
                                     else yaml_provenance t)\<rparr>,
                                  Task_rest = yaml_rest t\<rparr>))"
    by blast
  from rn have rd: "ex_tasks_read = Some tf" by (simp add: ex_tasks_read_def)
  have "map_option tf_Location ex_tasks_read = Some ''Taskfile.yml''"
    using loc by (simp add: rd ex_node_def)
  moreover have "ex_tasks_task ''build''
      = Some (Some (Some \<lparr>Task_Location = Some \<lparr>Location_Taskfile = ''Taskfile.yml''\<rparr>,
                          Task_rest = []\<rparr>))"
    using ts [of "''build''"] by (simp add: rd ex_tasks_task_def ex_tasks_def ex_node_def)
  moreover have "ex_tasks_task ''test''
      = Some (Some (Some \<lparr>Task_Location = Some \<lparr>Location_Taskfile = ''Taskfile.yml''\<rparr>,
                          Task_rest = ''go test''\<rparr>))"
    using ts [of "''test''"] by (simp add: rd ex_tasks_task_def ex_tasks_def ex_node_def)
  moreover have "ex_tasks_task ''lint''
      = Some (Some (Some \<lparr>Task_Location = Some \<lparr>Location_Taskfile = ''other.yml''\<rparr>,
                          Task_rest = ''golint''\<rparr>))"
    using ts [of "''lint''"] by (simp add: rd ex_tasks_task_def ex_tasks_def ex_node_def)
  moreover have "ex_tasks_task ''run'' = Some None"
    using ts [of "''run''"] by (simp add: rd ex_tasks_task_def ex_tasks_def)
  ultimately show ?thesis using h1 h2 h3' h4' by simp
qed

end
